theory Spec2Isabelle
  imports Complex_Main "HOL-Library.Sublist"
begin

section \<open>jtplot: the data model\<close>

text \<open>
  The module \<^verbatim>\<open>jupyterthemes/jtplot.py\<close> builds a flat mapping of plotting parameters and
  writes it into the global configuration of the plotting library. Python dictionaries
  with fixed literal contents are association lists in source order, dictionaries that
  are only merged and looked up are maps, exceptions are values of \<open>error\<close>.
  Python numbers are rationals: a decimal literal denotes its value and \<open>*\<close> is exact.
\<close>

datatype error = IOError | IndexError | KeyError | ValueError | UnicodeDecodeError

datatype rcval =
    RBool bool
  | RNum rat
  | RStr string
  | RList "string list"
  | RTuple rat rat
  | RCycler "string list"

type_synonym rcdict = "string \<rightharpoonup> rcval"

type_synonym rgb = "rat \<times> rat \<times> rat"

text \<open>An argument of the library's colour converter: a colour string or a float triple.\<close>

datatype color_arg = ColorStr string | ColorTuple rat rat rat

text \<open>
  A path of the file system either names a regular file, given by its bytes, or something
  that exists and cannot be opened for reading (a directory, a file without permission).
\<close>

datatype node = RegularFile string | Unreadable

type_synonym filesystem = "string \<rightharpoonup> node"

text \<open>
  What the module takes from its surroundings: the two paths computed at import time, the
  files, the iteration order of the interpreter's string sets (\<open>list(set(xs))\<close>), the
  library's parser of colour strings, and the codec with which a file opened in text mode
  is decoded: it gives no text for bytes that do not decode. Strings are lists of 8-bit
  characters, so the worlds of the model are those whose texts stay below code point 256.
\<close>

record world =
  styles_dir :: string
  theme_name_file :: string
  files :: filesystem
  set_order :: "string list \<Rightarrow> string list"
  parse_color :: "string \<Rightarrow> rgb"
  decode :: "string \<Rightarrow> string option"

text \<open>The global state of the plotting library that the module writes.\<close>

record mpl =
  rcParams :: rcdict
  rcParamsDefault :: rcdict
  colors :: "char \<rightharpoonup> rgb"
  cache :: "char \<rightharpoonup> rgb"

subsection \<open>The module's tables\<close>

definition base_style :: "(string \<times> rcval) list" where
  "base_style =
    [(''axes.axisbelow'', RBool True),
     (''figure.autolayout'', RBool True),
     (''grid.linestyle'', RStr ''-''),
     (''lines.solid_capstyle'', RStr ''round''),
     (''legend.frameon'', RBool False),
     (''legend.numpoints'', RNum 1),
     (''legend.scatterpoints'', RNum 1),
     (''font.family'', RStr ''sans-serif''),
     (''font.sans-serif'',
        RList [''Helvetica'', ''Arial'', ''Bitstream Vera Sans'', ''sans-serif''])]"

definition base_context :: "(string \<times> rat) list" where
  "base_context =
    [(''axes.linewidth'', 14 / 10),
     (''grid.linewidth'', 14 / 10),
     (''lines.linewidth'', 15 / 10),
     (''patch.linewidth'', 2 / 10),
     (''lines.markersize'', 7),
     (''lines.markeredgewidth'', 0),
     (''xtick.major.width'', 1),
     (''ytick.major.width'', 1),
     (''xtick.minor.width'', 5 / 10),
     (''ytick.minor.width'', 5 / 10),
     (''xtick.major.pad'', 7),
     (''ytick.major.pad'', 7),
     (''xtick.major.size'', 0),
     (''ytick.major.size'', 0),
     (''xtick.minor.size'', 0),
     (''ytick.minor.size'', 0)]"

definition base_font :: "(string \<times> rat) list" where
  "base_font =
    [(''font.size'', 11),
     (''axes.labelsize'', 12),
     (''axes.titlesize'', 12),
     (''xtick.labelsize'', 105 / 10),
     (''ytick.labelsize'', 105 / 10),
     (''legend.fontsize'', 105 / 10)]"

subsection \<open>Files and strings\<close>

definition newline :: char where
  "newline = CHR 0x0A"

text \<open>\<^verbatim>\<open>open(path)\<close>: the bytes of the file that reading will see.\<close>

definition open_file :: "filesystem \<Rightarrow> string \<Rightarrow> error + string" where
  "open_file fs path =
    (case fs path of
       None \<Rightarrow> Inl IOError
     | Some Unreadable \<Rightarrow> Inl IOError
     | Some (RegularFile bytes) \<Rightarrow> Inr bytes)"

definition carriage_return :: char where
  "carriage_return = CHR 0x0D"

text \<open>
  Text mode translates the line endings while it reads: a carriage return with the
  newline after it, and a carriage return alone, both become one newline.
\<close>

fun translate_newlines :: "string \<Rightarrow> string" where
  "translate_newlines [] = []"
| "translate_newlines [c] = [if c = carriage_return then newline else c]"
| "translate_newlines (c # d # cs) =
    (if c = carriage_return then
       (if d = newline then newline # translate_newlines cs
        else newline # translate_newlines (d # cs))
     else c # translate_newlines (d # cs))"

text \<open>
  Reading a file opened in text mode: the bytes are decoded, which fails with
  UnicodeDecodeError (a ValueError, no I/O error) on bytes the codec rejects, and the line
  endings of the decoded text are translated.
\<close>

definition read_text :: "(string \<Rightarrow> string option) \<Rightarrow> string \<Rightarrow> error + string" where
  "read_text codec bytes =
    (case codec bytes of
       None \<Rightarrow> Inl UnicodeDecodeError
     | Some text \<Rightarrow> Inr (translate_newlines text))"

text \<open>The lines of a text as iteration over the file yields them, each with its newline.\<close>

fun file_lines :: "string \<Rightarrow> string list" where
  "file_lines [] = []"
| "file_lines (c # cs) =
    (if c = newline then [c] # file_lines cs
     else (case file_lines cs of [] \<Rightarrow> [[c]] | l # ls \<Rightarrow> (c # l) # ls))"

text \<open>\<^verbatim>\<open>os.path.join(a, b)\<close> on a POSIX system.\<close>

definition path_join :: "string \<Rightarrow> string \<Rightarrow> string" where
  "path_join a b =
    (if prefix ''/'' b then b
     else if a = [] \<or> suffix ''/'' a then a @ b
     else a @ ''/'' @ b)"

text \<open>\<^verbatim>\<open>s.split(c)\<close> for a one-character separator.\<close>

fun split :: "char \<Rightarrow> string \<Rightarrow> string list" where
  "split c [] = [[]]"
| "split c (x # xs) =
    (if x = c then [] # split c xs
     else (case split c xs of [] \<Rightarrow> [[x]] | w # ws \<Rightarrow> (x # w) # ws))"

text \<open>The characters below 256 that \<^verbatim>\<open>str.isspace\<close> accepts.\<close>

definition isspace :: "char \<Rightarrow> bool" where
  "isspace c =
    (let n = (of_char c :: nat)
     in (9 \<le> n \<and> n \<le> 13) \<or> (28 \<le> n \<and> n \<le> 32) \<or> n = 133 \<or> n = 160)"

definition strip :: "string \<Rightarrow> string" where
  "strip s = rev (dropWhile isspace (rev (dropWhile isspace s)))"

text \<open>\<^verbatim>\<open>s[-7:]\<close>\<close>

definition last7 :: "string \<Rightarrow> string" where
  "last7 s = drop (length s - 7) s"

text \<open>\<^verbatim>\<open>xs.index(c)\<close>: the first position that holds \<open>c\<close>; ValueError when there is none.\<close>

fun index :: "'a list \<Rightarrow> 'a \<Rightarrow> nat option" where
  "index [] c = None"
| "index (x # xs) c = (if x = c then Some 0 else map_option Suc (index xs c))"

definition bind_err :: "error + 'a \<Rightarrow> ('a \<Rightarrow> error + 'b) \<Rightarrow> error + 'b" where
  "bind_err r f = (case r of Inl e \<Rightarrow> Inl e | Inr x \<Rightarrow> f x)"

text \<open>\<^verbatim>\<open>d[k]\<close> on a dictionary.\<close>

definition getitem :: "('k \<times> 'v) list \<Rightarrow> 'k \<Rightarrow> error + 'v" where
  "getitem d k = (case map_of d k of None \<Rightarrow> Inl KeyError | Some v \<Rightarrow> Inr v)"

section \<open>The functions of the module\<close>

subsection \<open>infer_theme\<close>

definition infer_theme :: "'a world_scheme \<Rightarrow> error + string" where
  "infer_theme w =
    (if files w (theme_name_file w) \<noteq> None then
       bind_err (open_file (files w) (theme_name_file w)) (\<lambda>bytes.
       bind_err (read_text (decode w) bytes) (\<lambda>text.
         case file_lines text of
           [] \<Rightarrow> Inl IndexError
         | theme # _ \<Rightarrow> Inr theme))
     else Inr ''default'')"

subsection \<open>set_context\<close>

definition scaling_table :: "(string \<times> rat) list" where
  "scaling_table =
    [(''paper'', 8 / 10), (''notebook'', 1), (''talk'', 13 / 10), (''poster'', 16 / 10)]"

definition scale_items :: "rat \<Rightarrow> (string \<times> rat) list \<Rightarrow> rcdict" where
  "scale_items factor items = map_of (map (\<lambda>(k, v). (k, RNum (v * factor))) items)"

definition set_context :: "string \<Rightarrow> rat \<Rightarrow> error + rcdict" where
  "set_context context fscale =
    bind_err (getitem scaling_table context) (\<lambda>scaling.
      let context_dict = scale_items scaling base_context;
          figX = 55 / 10; figY = 45 / 10;
          context_dict = context_dict(''figure.figsize'' \<mapsto> RTuple (figX * scaling) (figY * scaling));
          font_dict = scale_items fscale base_font
      in Inr (context_dict ++ font_dict))"

subsection \<open>figsize\<close>

definition figsize :: "rat \<Rightarrow> rat \<Rightarrow> rat \<Rightarrow> mpl \<Rightarrow> mpl" where
  "figsize x y aspect st =
    st\<lparr>rcParams := rcParams st ++ [''figure.figsize'' \<mapsto> RTuple (x * aspect) y]\<rparr>"

subsection \<open>get_theme_style\<close>

definition get_color_list :: "string list" where
  "get_color_list =
    [''#3572C6'', ''#83a83b'', ''#c44e52'', ''#8172b2'', ''#ff914d'', ''#77BEDB'', ''#222222'',
     ''#4168B7'', ''#27ae60'', ''#e74c3c'', ''#8E44AD'', ''#ff711a'', ''#3498db'', ''#6C7A89'']"

definition get_default_jtstyle :: "(string \<times> string) list \<times> string list" where
  "get_default_jtstyle =
    ([(''axisFace'', ''white''),
      (''figureFace'', ''white''),
      (''textColor'', ''.15''),
      (''edgeColor'', ''.8''),
      (''gridColor'', ''.8'')],
     get_color_list)"

definition syntaxVars0 :: "string list" where
  "syntaxVars0 =
    [''@cm-atom'', ''@cm-number'', ''@cm-property'', ''@cm-attribute'', ''@cm-keyword'',
     ''@cm-string'', ''@cm-meta'']"

text \<open>\<^verbatim>\<open>line.split(':')[-1].split(';')[0][-7:]\<close>; \<open>split\<close> never returns the empty list.\<close>

definition get_hex_code :: "string \<Rightarrow> string" where
  "get_hex_code line = last7 (hd (split (CHR '';'') (last (split (CHR '':'') line))))"

text \<open>
  The loop over \<^verbatim>\<open>styleMap.items()\<close>: a slot whose key occurs in the stripped line takes
  the line's code; the keys stay as they are.
\<close>

definition scan_styleMap :: "string \<Rightarrow> (string \<times> string) list \<Rightarrow> (string \<times> string) list" where
  "scan_styleMap line styleMap =
    map (\<lambda>(k, v). if sublist k (strip line) then (k, get_hex_code line) else (k, v)) styleMap"

text \<open>
  The loop over \<^verbatim>\<open>syntaxVars\<close>, which assigns to the list it walks: position \<open>i\<close> is read
  from the list as the earlier iterations left it.
\<close>

function scan_syntaxVars :: "string \<Rightarrow> string list \<Rightarrow> nat \<Rightarrow> error + string list" where
  "scan_syntaxVars line syntaxVars i =
    (if i < length syntaxVars then
       (let c = syntaxVars ! i in
        if sublist c (strip line) then
          (case index syntaxVars c of
             None \<Rightarrow> Inl ValueError
           | Some j \<Rightarrow> scan_syntaxVars line (syntaxVars[j := get_hex_code line]) (Suc i))
        else scan_syntaxVars line syntaxVars (Suc i))
     else Inr syntaxVars)"
  by pat_completeness auto
termination
  by (relation "measure (\<lambda>(line, syntaxVars, i). length syntaxVars - i)") auto

fun scan_lines ::
  "string list \<Rightarrow> (string \<times> string) list \<Rightarrow> string list \<Rightarrow>
     error + ((string \<times> string) list \<times> string list)" where
  "scan_lines [] styleMap syntaxVars = Inr (styleMap, syntaxVars)"
| "scan_lines (line # rest) styleMap syntaxVars =
    bind_err (scan_syntaxVars line syntaxVars 0) (\<lambda>syntaxVars'.
      scan_lines rest (scan_styleMap line styleMap) syntaxVars')"

definition get_theme_style ::
  "'a world_scheme \<Rightarrow> string \<Rightarrow> error + ((string \<times> string) list \<times> string list)" where
  "get_theme_style w theme =
    (case get_default_jtstyle of (styleMap, clist) \<Rightarrow>
       if theme = ''default'' then Inr (styleMap, clist)
       else
         let themeFile = path_join (styles_dir w) (theme @ ''.less'') in
         bind_err (open_file (files w) themeFile) (\<lambda>bytes.
         bind_err (read_text (decode w) bytes) (\<lambda>text.
         bind_err (scan_lines (file_lines text) styleMap syntaxVars0) (\<lambda>(styleMap', syntaxVars).
           Inr (styleMap', clist @ set_order w syntaxVars)))))"

subsection \<open>set_style\<close>

text \<open>The dictionary \<^verbatim>\<open>style_dict\<close> of \<^verbatim>\<open>set_style\<close>, with the five lookups before it.\<close>

definition style_dict ::
  "(string \<times> string) list \<Rightarrow> bool \<Rightarrow> bool \<Rightarrow> error + (string \<times> rcval) list" where
  "style_dict styleMap grid spines =
    bind_err (getitem styleMap ''figureFace'') (\<lambda>figureFace.
    bind_err (getitem styleMap ''axisFace'') (\<lambda>axisFace.
    bind_err (getitem styleMap ''textColor'') (\<lambda>textColor.
    bind_err (getitem styleMap ''edgeColor'') (\<lambda>edgeColor.
    bind_err (getitem styleMap ''gridColor'') (\<lambda>gridColor.
      let edgeColor = (if \<not> spines then gridColor else edgeColor) in
      Inr [(''figure.edgecolor'', RStr figureFace),
           (''figure.facecolor'', RStr figureFace),
           (''axes.facecolor'', RStr axisFace),
           (''axes.edgecolor'', RStr edgeColor),
           (''axes.labelcolor'', RStr textColor),
           (''axes.grid'', RBool grid),
           (''grid.color'', RStr gridColor),
           (''text.color'', RStr textColor),
           (''xtick.color'', RStr textColor),
           (''ytick.color'', RStr textColor),
           (''patch.edgecolor'', RStr axisFace),
           (''patch.facecolor'', RStr gridColor),
           (''savefig.facecolor'', RStr figureFace),
           (''savefig.edgecolor'', RStr figureFace)])))))"

definition ticks_dict :: "(string \<times> rcval) list" where
  "ticks_dict =
    [(''xtick.major.size'', RNum 6),
     (''ytick.major.size'', RNum 6),
     (''xtick.minor.size'', RNum 3),
     (''ytick.minor.size'', RNum 3)]"

text \<open>
  \<^verbatim>\<open>rcdict\<close> as \<^verbatim>\<open>set_style\<close> holds it when it updates the library's parameters, and the
  theme's colour list.
\<close>

definition set_style_rcdict ::
  "'a world_scheme \<Rightarrow> rcdict \<Rightarrow> string \<Rightarrow> bool \<Rightarrow> bool \<Rightarrow> bool \<Rightarrow> error + (rcdict \<times> string list)" where
  "set_style_rcdict w rcdict theme grid ticks spines =
    bind_err (get_theme_style w theme) (\<lambda>(styleMap, clist).
    bind_err (style_dict styleMap grid spines) (\<lambda>sd.
      let rcdict = (if ticks then rcdict ++ map_of ticks_dict else rcdict);
          rcdict = rcdict ++ map_of sd
      in Inr (rcdict, clist)))"

text \<open>The converter returns a float triple as it is and parses a string.\<close>

fun to_rgb :: "(string \<Rightarrow> rgb) \<Rightarrow> color_arg \<Rightarrow> rgb" where
  "to_rgb parse (ColorStr s) = parse s"
| "to_rgb parse (ColorTuple r g b) = (r, g, b)"

text \<open>The loop that rebinds the one-letter colour codes.\<close>

fun set_color_codes :: "(string \<Rightarrow> rgb) \<Rightarrow> (char \<times> color_arg) list \<Rightarrow> mpl \<Rightarrow> mpl" where
  "set_color_codes parse [] st = st"
| "set_color_codes parse ((code, color) # rest) st =
    (let rgb = to_rgb parse color
     in set_color_codes parse rest
          (st\<lparr>colors := (colors st)(code \<mapsto> rgb), cache := (cache st)(code \<mapsto> rgb)\<rparr>))"

definition set_style ::
  "'a world_scheme \<Rightarrow> mpl \<Rightarrow> rcdict \<Rightarrow> string \<Rightarrow> bool \<Rightarrow> bool \<Rightarrow> bool \<Rightarrow> error + mpl" where
  "set_style w st rcdict theme grid ticks spines =
    bind_err (set_style_rcdict w rcdict theme grid ticks spines) (\<lambda>(rcdict', clist).
      let st = st\<lparr>rcParams := rcParams st ++ rcdict'\<rparr>;
          st = st\<lparr>rcParams := (rcParams st)(''axes.prop_cycle'' \<mapsto> RCycler clist)\<rparr>
      in Inr (set_color_codes (parse_color w) (zip ''bgrmyck'' (map ColorStr (take 7 clist))) st))"

subsection \<open>style\<close>

definition style ::
  "'a world_scheme \<Rightarrow> mpl \<Rightarrow> string option \<Rightarrow> string \<Rightarrow> bool \<Rightarrow> bool \<Rightarrow> bool \<Rightarrow> rat \<Rightarrow> error + mpl" where
  "style w st theme context grid ticks spines fscale =
    bind_err (set_context context fscale) (\<lambda>rcdict.
    bind_err (case theme of None \<Rightarrow> infer_theme w | Some t \<Rightarrow> Inr t) (\<lambda>theme.
      set_style w st rcdict theme grid ticks spines))"

subsection \<open>reset\<close>

definition reset :: "'a world_scheme \<Rightarrow> mpl \<Rightarrow> mpl" where
  "reset w st =
    (let colors = [ColorTuple 0 0 1, ColorTuple 0 (5 / 10) 0, ColorTuple 1 0 0,
                   ColorTuple (75 / 100) (75 / 100) 0, ColorTuple (75 / 100) (75 / 100) 0,
                   ColorTuple 0 (75 / 100) (75 / 100), ColorTuple 0 0 0];
         st = set_color_codes (parse_color w) (zip ''bgrmyck'' colors) st;
         st = st\<lparr>rcParams := rcParams st ++ rcParamsDefault st\<rparr>;
         st = st\<lparr>rcParams := (rcParams st)(''figure.facecolor'' \<mapsto> RStr ''white'')\<rparr>
     in st\<lparr>rcParams := (rcParams st)(''axes.facecolor'' \<mapsto> RStr ''white'')\<rparr>)"

section \<open>Notions used to state the properties\<close>

text \<open>
  The first line of a text, verbatim: everything up to the first newline, with that
  newline when there is one.
\<close>

definition first_line :: "string \<Rightarrow> string" where
  "first_line text =
    takeWhile (\<lambda>c. c \<noteq> newline) text @ take 1 (dropWhile (\<lambda>c. c \<noteq> newline) text)"

text \<open>The keys that \<^verbatim>\<open>set_style\<close> binds to theme colours and to the grid flag.\<close>

definition style_keys :: "string list" where
  "style_keys =
    [''figure.edgecolor'', ''figure.facecolor'', ''axes.facecolor'', ''axes.edgecolor'',
     ''axes.labelcolor'', ''axes.grid'', ''grid.color'', ''text.color'', ''xtick.color'',
     ''ytick.color'', ''patch.edgecolor'', ''patch.facecolor'', ''savefig.facecolor'',
     ''savefig.edgecolor'']"

text \<open>
  \<^verbatim>\<open>list(set(xs))\<close> lists the members of \<open>xs\<close> once each, in an order the interpreter
  chooses; this is all that is assumed of it.
\<close>

definition set_listing :: "(string list \<Rightarrow> string list) \<Rightarrow> bool" where
  "set_listing f = (\<forall>xs. distinct (f xs) \<and> set (f xs) = set xs)"

text \<open>The keys of the five colour slots, in the order of the built-in map.\<close>

definition slot_keys :: "string list" where
  "slot_keys = [''axisFace'', ''figureFace'', ''textColor'', ''edgeColor'', ''gridColor'']"

text \<open>A colour of the shape \<open>#RRGGBB\<close>.\<close>

definition valid_hex :: "string \<Rightarrow> bool" where
  "valid_hex h =
    (length h = 7 \<and> hd h = CHR ''#''
     \<and> list_all (\<lambda>c. c \<in> set ''0123456789abcdefABCDEF'') (tl h))"

text \<open>
  The marker \<open>m\<close> stands in the file with the value \<open>h\<close>: some line mentions \<open>m\<close>, and
  every line that mentions it yields \<open>h\<close>.
\<close>

definition marker_has :: "string list \<Rightarrow> string \<Rightarrow> string \<Rightarrow> bool" where
  "marker_has lines m h =
    (list_ex (sublist m) lines \<and> list_all (\<lambda>l. sublist m l \<longrightarrow> get_hex_code l = h) lines)"

text \<open>Every line on which the value \<open>h\<close> is written yields \<open>h\<close>.\<close>

definition value_stable :: "string list \<Rightarrow> string \<Rightarrow> bool" where
  "value_stable lines h = list_all (\<lambda>l. sublist h l \<longrightarrow> get_hex_code l = h) lines"

text \<open>
  The state of the marker list during the scan, against the markers \<open>ms\<close> and their
  values \<open>hs\<close>: every position holds its marker or its value.
\<close>

definition replaced_or_marker :: "string list \<Rightarrow> string list \<Rightarrow> string list \<Rightarrow> bool" where
  "replaced_or_marker ms hs vars =
    (length vars = length ms \<and> (\<forall>i<length ms. vars ! i = ms ! i \<or> vars ! i = hs ! i))"

text \<open>A line whose stripped text shows a marker or its value yields that value.\<close>

definition line_carries :: "string list \<Rightarrow> string list \<Rightarrow> string \<Rightarrow> bool" where
  "line_carries ms hs l =
    (\<forall>i<length ms. sublist (ms ! i) (strip l) \<or> sublist (hs ! i) (strip l)
        \<longrightarrow> get_hex_code l = hs ! i)"

text \<open>A synthetic theme file with the twelve markers, one to a line.\<close>

definition synthetic_theme :: string where
  "synthetic_theme =
    concat (map (\<lambda>l. l @ [newline])
      [''axisFace: #101010;'',
       ''figureFace: #202020;'',
       ''textColor: #303030;'',
       ''edgeColor: #404040;'',
       ''gridColor: #505050;'',
       ''@cm-atom: #a0a0a0;'',
       ''@cm-number: #b0b0b0;'',
       ''@cm-property: #c0c0c0;'',
       ''@cm-attribute: #d0d0d0;'',
       ''@cm-keyword: #e0e0e0;'',
       ''@cm-string: #f0f0f0;'',
       ''@cm-meta: #0f0f0f;''])"

text \<open>The same file with one more line, a comment that mentions the colour of a marker.\<close>

definition commented_theme :: string where
  "commented_theme = synthetic_theme @ ''// atom colour #a0a0a0'' @ [newline]"

section \<open>Properties of set_context\<close>

lemma scale_items_apply:
  "scale_items f items k = map_option (\<lambda>v. RNum (v * f)) (map_of items k)"
  unfolding scale_items_def by (induction items) auto

lemma distinct_base_context: "distinct (map fst base_context)"
  by (simp add: base_context_def)

lemma distinct_base_font: "distinct (map fst base_font)"
  by (simp add: base_font_def)

lemma base_context_font_disjoint: "k \<in> fst ` set base_context \<Longrightarrow> map_of base_font k = None"
  by (auto simp add: base_context_def base_font_def)

lemma base_context_not_figsize: "k \<in> fst ` set base_context \<Longrightarrow> k \<noteq> ''figure.figsize''"
  by (auto simp add: base_context_def)

lemma scaling_lookup:
  "(c, s) \<in> {(''paper'', 8 / 10), (''notebook'', 1), (''talk'', 13 / 10), (''poster'', 16 / 10)}
     \<Longrightarrow> getitem scaling_table c = Inr s"
  by (auto simp add: getitem_def scaling_table_def)

lemma context_has_scaling:
  assumes "c \<in> {''paper'', ''notebook'', ''talk'', ''poster''}"
  shows "\<exists>s. getitem scaling_table c = Inr s"
proof -
  from assms have
    "(c, 8 / 10) \<in> {(''paper'', 8 / 10 :: rat), (''notebook'', 1), (''talk'', 13 / 10), (''poster'', 16 / 10)}
     \<or> (c, 1) \<in> {(''paper'', 8 / 10 :: rat), (''notebook'', 1), (''talk'', 13 / 10), (''poster'', 16 / 10)}
     \<or> (c, 13 / 10) \<in> {(''paper'', 8 / 10 :: rat), (''notebook'', 1), (''talk'', 13 / 10), (''poster'', 16 / 10)}
     \<or> (c, 16 / 10) \<in> {(''paper'', 8 / 10 :: rat), (''notebook'', 1), (''talk'', 13 / 10), (''poster'', 16 / 10)}"
    by auto
  then show ?thesis
    using scaling_lookup by blast
qed

lemma set_context_Inr:
  "getitem scaling_table c = Inr s \<Longrightarrow>
     set_context c fscale =
       Inr ((scale_items s base_context)(''figure.figsize'' \<mapsto> RTuple (55 / 10 * s) (45 / 10 * s))
              ++ scale_items fscale base_font)"
  by (simp add: set_context_def bind_err_def)

lemma context_entry:
  assumes "(k, v) \<in> set base_context"
  shows "((scale_items s base_context)(''figure.figsize'' \<mapsto> t) ++ scale_items f base_font) k
           = Some (RNum (v * s))"
proof -
  have k: "k \<in> fst ` set base_context" using assms by force
  have "map_of base_context k = Some v"
    using assms distinct_base_context by simp
  moreover have "scale_items f base_font k = None"
    using base_context_font_disjoint [OF k] by (simp add: scale_items_apply)
  ultimately show ?thesis
    using base_context_not_figsize [OF k] by (simp add: map_add_def scale_items_apply)
qed

lemma font_entry:
  assumes "(k, v) \<in> set base_font"
  shows "(m ++ scale_items f base_font) k = Some (RNum (v * f))"
proof -
  have "map_of base_font k = Some v"
    using assms distinct_base_font by simp
  then show ?thesis by (simp add: map_add_def scale_items_apply)
qed

lemma figsize_entry:
  "((scale_items s base_context)(''figure.figsize'' \<mapsto> t) ++ scale_items f base_font) ''figure.figsize''
     = Some t"
  by (simp add: map_add_def scale_items_apply base_font_def)

text \<open>
  C3. For each of the four contexts, \<^verbatim>\<open>set_context(c, 1.0)\<close> returns a mapping in which
  every key of the base-context table holds the base value times the constant of the
  context (paper 0.8, notebook 1, talk 1.3, poster 1.6), and the figure size is
  \<open>(5.5 * scale, 4.5 * scale)\<close>.
\<close>

theorem set_context_scales_base_context:
  assumes "(c, s) \<in> {(''paper'', 8 / 10), (''notebook'', 1), (''talk'', 13 / 10), (''poster'', 16 / 10)}"
  shows "\<exists>m. set_context c 1 = Inr m
     \<and> (\<forall>(k, v) \<in> set base_context. m k = Some (RNum (v * s)))
     \<and> m ''figure.figsize'' = Some (RTuple (55 / 10 * s) (45 / 10 * s))"
  using set_context_Inr [OF scaling_lookup [OF assms], of 1]
  by (auto simp add: context_entry figsize_entry)

theorem set_context_scales_base_context_witness:
  "(''paper'', 8 / 10) \<in> {(''paper'', 8 / 10 :: rat), (''notebook'', 1), (''talk'', 13 / 10), (''poster'', 16 / 10)}
   \<and> (\<exists>m. set_context ''paper'' 1 = Inr m
        \<and> m ''xtick.minor.width'' = Some (RNum (4 / 10))
        \<and> m ''xtick.major.width'' = Some (RNum (8 / 10))
        \<and> m ''xtick.major.size'' = Some (RNum 0)
        \<and> m ''figure.figsize'' = Some (RTuple (44 / 10) (36 / 10)))"
proof -
  have h: "(''paper'', 8 / 10) \<in> {(''paper'', 8 / 10 :: rat), (''notebook'', 1), (''talk'', 13 / 10), (''poster'', 16 / 10)}"
    by simp
  from set_context_scales_base_context [OF h] obtain m where
    m: "set_context ''paper'' 1 = Inr m"
       "\<forall>(k, v) \<in> set base_context. m k = Some (RNum (v * (8 / 10)))"
       "m ''figure.figsize'' = Some (RTuple (55 / 10 * (8 / 10)) (45 / 10 * (8 / 10)))"
    by blast
  have "(''xtick.minor.width'', 5 / 10) \<in> set base_context"
    "(''xtick.major.width'', 1) \<in> set base_context"
    "(''xtick.major.size'', 0) \<in> set base_context"
    by (simp_all add: base_context_def)
  with m(2) have "m ''xtick.minor.width'' = Some (RNum (5 / 10 * (8 / 10)))"
     "m ''xtick.major.width'' = Some (RNum (1 * (8 / 10)))"
     "m ''xtick.major.size'' = Some (RNum (0 * (8 / 10)))"
    by blast+
  with m(1,3) h show ?thesis by simp
qed

text \<open>
  C4. For valid contexts and every \<open>fscale\<close>, each key of the base-font table holds the
  base value times \<open>fscale\<close> in the mapping \<^verbatim>\<open>set_context\<close> returns, and two contexts give
  the same font entries.
\<close>

theorem set_context_fonts_independent:
  assumes "c \<in> {''paper'', ''notebook'', ''talk'', ''poster''}"
      and "c' \<in> {''paper'', ''notebook'', ''talk'', ''poster''}"
  shows "\<exists>m m'. set_context c fscale = Inr m \<and> set_context c' fscale = Inr m'
     \<and> (\<forall>(k, v) \<in> set base_font. m k = Some (RNum (v * fscale)) \<and> m' k = m k)"
proof -
  from context_has_scaling [OF assms(1)] obtain s where s: "getitem scaling_table c = Inr s"
    by blast
  from context_has_scaling [OF assms(2)] obtain s' where s': "getitem scaling_table c' = Inr s'"
    by blast
  show ?thesis
    using set_context_Inr [OF s, of fscale] set_context_Inr [OF s', of fscale]
    by (auto simp add: font_entry)
qed

theorem set_context_fonts_independent_witness:
  "''paper'' \<in> {''paper'', ''notebook'', ''talk'', ''poster''}
   \<and> ''poster'' \<in> {''paper'', ''notebook'', ''talk'', ''poster''}
   \<and> (\<exists>m m'. set_context ''paper'' 2 = Inr m \<and> set_context ''poster'' 2 = Inr m'
        \<and> m ''font.size'' = Some (RNum 22) \<and> m' ''font.size'' = Some (RNum 22)
        \<and> m ''xtick.labelsize'' = Some (RNum 21) \<and> m' ''xtick.labelsize'' = Some (RNum 21))"
proof -
  have h: "''paper'' \<in> {''paper'', ''notebook'', ''talk'', ''poster''}"
    and h': "''poster'' \<in> {''paper'', ''notebook'', ''talk'', ''poster''}"
    by simp_all
  from set_context_fonts_independent [OF h h', of 2] obtain m m' where
    m: "set_context ''paper'' 2 = Inr m" "set_context ''poster'' 2 = Inr m'"
       "\<forall>(k, v) \<in> set base_font. m k = Some (RNum (v * 2)) \<and> m' k = m k"
    by blast
  have "(''font.size'', 11) \<in> set base_font" "(''xtick.labelsize'', 105 / 10) \<in> set base_font"
    by (simp_all add: base_font_def)
  with m(3) have "m ''font.size'' = Some (RNum (11 * 2)) \<and> m' ''font.size'' = m ''font.size''"
     "m ''xtick.labelsize'' = Some (RNum (105 / 10 * 2)) \<and> m' ''xtick.labelsize'' = m ''xtick.labelsize''"
    by blast+
  with m(1,2) h h' show ?thesis by simp
qed

text \<open>
  C7. A context name outside the table of four makes \<^verbatim>\<open>set_context\<close> fail with the
  lookup error; no mapping is returned and no default scale is substituted.
\<close>

theorem set_context_unknown_context:
  "c \<notin> {''paper'', ''notebook'', ''talk'', ''poster''} \<Longrightarrow> set_context c fscale = Inl KeyError"
  by (simp add: set_context_def getitem_def scaling_table_def bind_err_def)

theorem set_context_unknown_context_witness:
  "''slides'' \<notin> {''paper'', ''notebook'', ''talk'', ''poster''}
   \<and> set_context ''slides'' 1 = Inl KeyError"
proof -
  have h: "''slides'' \<notin> {''paper'', ''notebook'', ''talk'', ''poster''}" by simp
  from set_context_unknown_context [OF h, of 1] h show ?thesis by simp
qed

section \<open>Properties of get_theme_style\<close>

text \<open>
  C5. For the theme \<open>default\<close>, \<^verbatim>\<open>get_theme_style\<close> returns the five built-in slot colours
  and the accent list of 14 entries, none of them twice, whatever the files are: no theme
  file is read.
\<close>

theorem get_theme_style_default:
  "get_theme_style w ''default'' =
     Inr ([(''axisFace'', ''white''), (''figureFace'', ''white''), (''textColor'', ''.15''),
           (''edgeColor'', ''.8''), (''gridColor'', ''.8'')],
          [''#3572C6'', ''#83a83b'', ''#c44e52'', ''#8172b2'', ''#ff914d'', ''#77BEDB'', ''#222222'',
           ''#4168B7'', ''#27ae60'', ''#e74c3c'', ''#8E44AD'', ''#ff711a'', ''#3498db'', ''#6C7A89''])
   \<and> get_theme_style w ''default'' = get_theme_style (w\<lparr>files := fs\<rparr>) ''default''
   \<and> length get_color_list = 14 \<and> distinct get_color_list"
  by (simp add: get_theme_style_def get_default_jtstyle_def get_color_list_def)

section \<open>Properties of set_style and style\<close>

lemma rcParams_set_color_codes: "rcParams (set_color_codes p xs st) = rcParams st"
  by (induction p xs st rule: set_color_codes.induct) (simp_all add: Let_def)

lemma set_style_result:
  assumes "set_style_rcdict w rcdict theme grid ticks spines = Inr (rc, clist)"
  shows "\<exists>st'. set_style w st rcdict theme grid ticks spines = Inr st'
           \<and> rcParams st' = (rcParams st ++ rc)(''axes.prop_cycle'' \<mapsto> RCycler clist)"
  using assms by (simp add: set_style_def bind_err_def Let_def rcParams_set_color_codes)

lemma set_style_Inr:
  assumes "set_style w st rcdict theme grid ticks spines = Inr st'"
  shows "\<exists>rc clist. set_style_rcdict w rcdict theme grid ticks spines = Inr (rc, clist)
           \<and> rcParams st' = (rcParams st ++ rc)(''axes.prop_cycle'' \<mapsto> RCycler clist)"
proof (cases "set_style_rcdict w rcdict theme grid ticks spines")
  case (Inl e)
  with assms show ?thesis by (simp add: set_style_def bind_err_def)
next
  case (Inr p)
  obtain rc clist where p: "p = (rc, clist)" by (cases p)
  from set_style_result [OF Inr [unfolded p], of st] assms show ?thesis
    using Inr p by auto
qed

lemma style_dict_keys:
  assumes "style_dict styleMap grid spines = Inr sd"
  shows "map fst sd = style_keys"
  using assms
  by (auto simp add: style_dict_def bind_err_def style_keys_def Let_def split: sum.splits)

lemma style_dict_default:
  "\<exists>sd. style_dict (fst get_default_jtstyle) grid spines = Inr sd"
  by (simp add: style_dict_def bind_err_def getitem_def get_default_jtstyle_def Let_def)

lemma set_style_rcdict_Inr:
  assumes "set_style_rcdict w rcdict theme grid ticks spines = Inr (rc, clist)"
  shows "\<exists>sd. map fst sd = style_keys
           \<and> rc = (if ticks then rcdict ++ map_of ticks_dict else rcdict) ++ map_of sd"
proof -
  from assms obtain styleMap sd where
    sd: "style_dict styleMap grid spines = Inr sd"
    and rc: "rc = (if ticks then rcdict ++ map_of ticks_dict else rcdict) ++ map_of sd"
    by (auto simp add: set_style_rcdict_def bind_err_def Let_def split: sum.splits)
  from style_dict_keys [OF sd] rc show ?thesis by blast
qed

lemma set_style_rcdict_default:
  "\<exists>sd. map fst sd = style_keys
     \<and> set_style_rcdict w rcdict ''default'' grid ticks spines
         = Inr ((if ticks then rcdict ++ map_of ticks_dict else rcdict) ++ map_of sd, get_color_list)"
proof -
  obtain sd where sd: "style_dict (fst get_default_jtstyle) grid spines = Inr sd"
    using style_dict_default by blast
  have "get_theme_style w ''default'' = Inr (fst get_default_jtstyle, get_color_list)"
    by (simp add: get_theme_style_def get_default_jtstyle_def)
  then have "set_style_rcdict w rcdict ''default'' grid ticks spines
         = Inr ((if ticks then rcdict ++ map_of ticks_dict else rcdict) ++ map_of sd, get_color_list)"
    using sd by (simp add: set_style_rcdict_def bind_err_def Let_def)
  with style_dict_keys [OF sd] show ?thesis by blast
qed

lemma map_of_outside_keys:
  "map fst sd = ks \<Longrightarrow> k \<notin> set ks \<Longrightarrow> map_of sd k = None"
  by (metis map_of_eq_None_iff set_map)

lemma ticks_outside_style_keys: "k \<in> fst ` set ticks_dict \<Longrightarrow> k \<notin> set style_keys \<and> k \<noteq> ''axes.prop_cycle''"
  by (auto simp add: ticks_dict_def style_keys_def)

lemma ticks_in_base_context: "k \<in> fst ` set ticks_dict \<Longrightarrow> (k, 0) \<in> set base_context"
  by (auto simp add: ticks_dict_def base_context_def)

text \<open>
  C8. With the theme \<open>default\<close> and a valid context, \<^verbatim>\<open>style\<close> with \<open>ticks=True\<close> leaves the
  major tick sizes at 6 and the minor ones at 3, for x and y; with \<open>ticks=False\<close> the four
  entries are 0, the scaled base-context values.
\<close>

theorem style_default_ticks:
  assumes "c \<in> {''paper'', ''notebook'', ''talk'', ''poster''}"
  shows "(\<exists>st'. style w st (Some ''default'') c grid True spines fscale = Inr st'
            \<and> rcParams st' ''xtick.major.size'' = Some (RNum 6)
            \<and> rcParams st' ''ytick.major.size'' = Some (RNum 6)
            \<and> rcParams st' ''xtick.minor.size'' = Some (RNum 3)
            \<and> rcParams st' ''ytick.minor.size'' = Some (RNum 3))
       \<and> (\<exists>st'. style w st (Some ''default'') c grid False spines fscale = Inr st'
            \<and> rcParams st' ''xtick.major.size'' = Some (RNum 0)
            \<and> rcParams st' ''ytick.major.size'' = Some (RNum 0)
            \<and> rcParams st' ''xtick.minor.size'' = Some (RNum 0)
            \<and> rcParams st' ''ytick.minor.size'' = Some (RNum 0))"
proof -
  from context_has_scaling [OF assms] obtain s where s: "getitem scaling_table c = Inr s"
    by blast
  define rcdict where
    "rcdict = (scale_items s base_context)(''figure.figsize'' \<mapsto> RTuple (55 / 10 * s) (45 / 10 * s))
                ++ scale_items fscale base_font"
  have ctx: "set_context c fscale = Inr rcdict"
    using set_context_Inr [OF s] by (simp add: rcdict_def)
  have zero: "rcdict k = Some (RNum 0)" if "k \<in> fst ` set ticks_dict" for k
    using context_entry [OF ticks_in_base_context [OF that]] by (simp add: rcdict_def)
  have final: "\<exists>st'. style w st (Some ''default'') c grid ticks spines fscale = Inr st'
       \<and> (\<forall>k \<in> fst ` set ticks_dict.
            rcParams st' k = (if ticks then map_of ticks_dict k else Some (RNum 0)))" for ticks
  proof -
    from set_style_rcdict_default obtain sd where
      keys: "map fst sd = style_keys"
      and rc: "set_style_rcdict w rcdict ''default'' grid ticks spines
         = Inr ((if ticks then rcdict ++ map_of ticks_dict else rcdict) ++ map_of sd, get_color_list)"
      by blast
    from set_style_result [OF rc] obtain st' where
      st': "set_style w st rcdict ''default'' grid ticks spines = Inr st'"
      and params: "rcParams st' = (rcParams st ++ ((if ticks then rcdict ++ map_of ticks_dict else rcdict)
                       ++ map_of sd))(''axes.prop_cycle'' \<mapsto> RCycler get_color_list)"
      by blast
    have run: "style w st (Some ''default'') c grid ticks spines fscale = Inr st'"
      using ctx st' by (simp add: style_def bind_err_def)
    have "rcParams st' k = (if ticks then map_of ticks_dict k else Some (RNum 0))"
      if k: "k \<in> fst ` set ticks_dict" for k
    proof -
      have none: "map_of sd k = None"
        using map_of_outside_keys [OF keys] ticks_outside_style_keys [OF k] by blast
      have dom: "map_of ticks_dict k \<noteq> None"
        using k by (simp add: map_of_eq_None_iff)
      show ?thesis
        using none dom zero [OF k] ticks_outside_style_keys [OF k]
        by (auto simp add: params map_add_def split: option.splits)
    qed
    with run show ?thesis by blast
  qed
  have t: "''xtick.major.size'' \<in> fst ` set ticks_dict" "''ytick.major.size'' \<in> fst ` set ticks_dict"
    "''xtick.minor.size'' \<in> fst ` set ticks_dict" "''ytick.minor.size'' \<in> fst ` set ticks_dict"
    by (simp_all add: ticks_dict_def)
  have v: "map_of ticks_dict ''xtick.major.size'' = Some (RNum 6)"
    "map_of ticks_dict ''ytick.major.size'' = Some (RNum 6)"
    "map_of ticks_dict ''xtick.minor.size'' = Some (RNum 3)"
    "map_of ticks_dict ''ytick.minor.size'' = Some (RNum 3)"
    by (simp_all add: ticks_dict_def)
  from final [of True] obtain st1 where
    1: "style w st (Some ''default'') c grid True spines fscale = Inr st1"
       "\<forall>k \<in> fst ` set ticks_dict. rcParams st1 k = map_of ticks_dict k"
    by auto
  from final [of False] obtain st2 where
    2: "style w st (Some ''default'') c grid False spines fscale = Inr st2"
       "\<forall>k \<in> fst ` set ticks_dict. rcParams st2 k = Some (RNum 0)"
    by auto
  from 1 t v have "rcParams st1 ''xtick.major.size'' = Some (RNum 6)"
    "rcParams st1 ''ytick.major.size'' = Some (RNum 6)"
    "rcParams st1 ''xtick.minor.size'' = Some (RNum 3)"
    "rcParams st1 ''ytick.minor.size'' = Some (RNum 3)"
    by metis+
  moreover from 2 t have "rcParams st2 ''xtick.major.size'' = Some (RNum 0)"
    "rcParams st2 ''ytick.major.size'' = Some (RNum 0)"
    "rcParams st2 ''xtick.minor.size'' = Some (RNum 0)"
    "rcParams st2 ''ytick.minor.size'' = Some (RNum 0)"
    by blast+
  ultimately show ?thesis using 1(1) 2(1) by simp
qed

theorem style_default_ticks_witness:
  "''notebook'' \<in> {''paper'', ''notebook'', ''talk'', ''poster''}
   \<and> (\<exists>st'. style \<lparr>styles_dir = ''styles'', theme_name_file = ''current_theme.txt'',
                     files = Map.empty, set_order = remdups, parse_color = (\<lambda>s. (0, 0, 0)), decode = Some\<rparr>
                   \<lparr>rcParams = Map.empty, rcParamsDefault = Map.empty,
                     colors = Map.empty, cache = Map.empty\<rparr>
                   (Some ''default'') ''notebook'' True True True 1 = Inr st'
          \<and> rcParams st' ''xtick.major.size'' = Some (RNum 6)
          \<and> rcParams st' ''ytick.minor.size'' = Some (RNum 3))
   \<and> (\<exists>st'. style \<lparr>styles_dir = ''styles'', theme_name_file = ''current_theme.txt'',
                     files = Map.empty, set_order = remdups, parse_color = (\<lambda>s. (0, 0, 0)), decode = Some\<rparr>
                   \<lparr>rcParams = Map.empty, rcParamsDefault = Map.empty,
                     colors = Map.empty, cache = Map.empty\<rparr>
                   (Some ''default'') ''notebook'' True False True 1 = Inr st'
          \<and> rcParams st' ''xtick.major.size'' = Some (RNum 0)
          \<and> rcParams st' ''ytick.minor.size'' = Some (RNum 0))"
proof -
  have h: "''notebook'' \<in> {''paper'', ''notebook'', ''talk'', ''poster''}" by simp
  from style_default_ticks [OF h] h show ?thesis by blast
qed

section \<open>Properties of reset\<close>

text \<open>
  C10. After \<^verbatim>\<open>reset\<close> the codes \<open>m\<close> and \<open>y\<close> are both bound to the triple
  \<open>(0.75, 0.75, 0)\<close>: the seven restored colours contain a duplicate, and \<open>m\<close> is not
  magenta, neither the pure \<open>(1, 0, 1)\<close> nor the darker \<open>(0.75, 0, 0.75)\<close>.
\<close>

theorem reset_m_equals_y:
  "colors (reset w st) CHR ''m'' = Some (75 / 100, 75 / 100, 0)
   \<and> colors (reset w st) CHR ''y'' = Some (75 / 100, 75 / 100, 0)
   \<and> cache (reset w st) CHR ''m'' = Some (75 / 100, 75 / 100, 0)
   \<and> cache (reset w st) CHR ''y'' = Some (75 / 100, 75 / 100, 0)
   \<and> \<not> distinct (map (colors (reset w st)) ''bgrmyck'')
   \<and> colors (reset w st) CHR ''m'' \<noteq> Some (1, 0, 1)
   \<and> colors (reset w st) CHR ''m'' \<noteq> Some (75 / 100, 0, 75 / 100)"
  by (simp add: reset_def Let_def)

section \<open>The base-style table and the final mapping\<close>

lemma set_context_dom:
  assumes "set_context c f = Inr m"
  shows "dom m = fst ` set base_context \<union> {''figure.figsize''} \<union> fst ` set base_font"
proof -
  have d: "dom (scale_items x items) = fst ` set items" for x items
    unfolding scale_items_def by (simp add: dom_map_of_conv_image_fst image_image case_prod_unfold)
  from assms obtain s where "getitem scaling_table c = Inr s"
    by (auto simp add: set_context_def bind_err_def split: sum.splits)
  from set_context_Inr [OF this, of f] assms show ?thesis
    by (auto simp add: d)
qed

lemma base_style_fresh:
  "list_all (\<lambda>k. k \<notin> set (map fst base_context) \<and> k \<noteq> ''figure.figsize''
                \<and> k \<notin> set (map fst base_font) \<and> k \<notin> set (map fst ticks_dict)
                \<and> k \<notin> set style_keys \<and> k \<noteq> ''axes.prop_cycle'')
            (map fst base_style)"
  by (simp add: base_style_def base_context_def base_font_def ticks_dict_def style_keys_def)

lemma base_style_not_context:
  "k \<in> fst ` set base_style \<Longrightarrow>
     k \<notin> fst ` set base_context \<union> {''figure.figsize''} \<union> fst ` set base_font"
  using base_style_fresh unfolding list_all_iff by auto

lemma base_style_not_style:
  "k \<in> fst ` set base_style \<Longrightarrow>
     k \<notin> fst ` set ticks_dict \<and> k \<notin> set style_keys \<and> k \<noteq> ''axes.prop_cycle''"
  using base_style_fresh unfolding list_all_iff by auto

lemma style_Inr:
  assumes "style w st theme context grid ticks spines fscale = Inr st'"
  shows "\<exists>rcdict t. set_context context fscale = Inr rcdict
           \<and> set_style w st rcdict t grid ticks spines = Inr st'"
  using assms by (auto simp add: style_def bind_err_def split: sum.splits)

lemma style_default_succeeds:
  assumes "c \<in> {''paper'', ''notebook'', ''talk'', ''poster''}"
  shows "\<exists>st'. style w st (Some ''default'') c grid ticks spines fscale = Inr st'"
proof -
  from context_has_scaling [OF assms] obtain s where "getitem scaling_table c = Inr s"
    by blast
  from set_context_Inr [OF this, of fscale] obtain rcdict where
    ctx: "set_context c fscale = Inr rcdict" by blast
  from set_style_rcdict_default [of w rcdict grid ticks spines] obtain rc where
    "set_style_rcdict w rcdict ''default'' grid ticks spines = Inr (rc, get_color_list)"
    by blast
  from set_style_result [OF this, of st] ctx show ?thesis
    by (auto simp add: style_def bind_err_def)
qed

text \<open>
  C1. The claim asks that the final mapping start from the base-style table, so that each
  of its keys is present unless a later stage overrides it. The module defines the table
  and never merges it: whenever \<^verbatim>\<open>style\<close> returns, the mapping it has pushed into the
  library's parameters binds no base-style key, and the parameters keep whatever they
  held for these keys before the call.
\<close>

theorem style_omits_base_style:
  assumes "style w st theme context grid ticks spines fscale = Inr st'"
  shows "\<exists>rc clist. rcParams st' = (rcParams st ++ rc)(''axes.prop_cycle'' \<mapsto> RCycler clist)
           \<and> (\<forall>k \<in> fst ` set base_style. rc k = None \<and> rcParams st' k = rcParams st k)"
proof -
  from style_Inr [OF assms] obtain rcdict t where
    ctx: "set_context context fscale = Inr rcdict"
    and run: "set_style w st rcdict t grid ticks spines = Inr st'"
    by blast
  from set_style_Inr [OF run] obtain rc clist where
    rc: "set_style_rcdict w rcdict t grid ticks spines = Inr (rc, clist)"
    and params: "rcParams st' = (rcParams st ++ rc)(''axes.prop_cycle'' \<mapsto> RCycler clist)"
    by blast
  from set_style_rcdict_Inr [OF rc] obtain sd where
    keys: "map fst sd = style_keys"
    and rc_eq: "rc = (if ticks then rcdict ++ map_of ticks_dict else rcdict) ++ map_of sd"
    by blast
  have fresh: "rc k = None \<and> rcParams st' k = rcParams st k" if k: "k \<in> fst ` set base_style" for k
  proof -
    have 1: "rcdict k = None"
      using base_style_not_context [OF k] set_context_dom [OF ctx] by blast
    have 2: "map_of ticks_dict k = None"
      using base_style_not_style [OF k] by (simp add: map_of_eq_None_iff)
    have 3: "map_of sd k = None"
      using map_of_outside_keys [OF keys] base_style_not_style [OF k] by blast
    have "rc k = None"
      using 1 2 3 by (simp add: rc_eq map_add_def)
    then show ?thesis
      using base_style_not_style [OF k] by (simp add: params map_add_def)
  qed
  show ?thesis
  proof (intro exI conjI ballI)
    show "rcParams st' = (rcParams st ++ rc)(''axes.prop_cycle'' \<mapsto> RCycler clist)"
      by (rule params)
  qed (simp_all add: fresh)
qed

theorem style_omits_base_style_witness:
  "(\<exists>st'. style \<lparr>styles_dir = ''styles'', theme_name_file = ''current_theme.txt'',
                   files = Map.empty, set_order = remdups, parse_color = (\<lambda>s. (0, 0, 0)), decode = Some\<rparr>
                 \<lparr>rcParams = Map.empty, rcParamsDefault = Map.empty,
                   colors = Map.empty, cache = Map.empty\<rparr>
                 (Some ''default'') ''notebook'' True False True 1 = Inr st'
          \<and> rcParams st' ''axes.axisbelow'' = None
          \<and> rcParams st' ''font.family'' = None)
   \<and> map_of base_style ''axes.axisbelow'' = Some (RBool True)
   \<and> map_of base_style ''font.family'' = Some (RStr ''sans-serif'')"
proof -
  let ?w = "\<lparr>styles_dir = ''styles'', theme_name_file = ''current_theme.txt'',
              files = Map.empty, set_order = remdups, parse_color = (\<lambda>s. (0, 0, 0)), decode = Some\<rparr>"
  let ?st = "\<lparr>rcParams = Map.empty, rcParamsDefault = Map.empty,
               colors = Map.empty, cache = Map.empty\<rparr>"
  have "''notebook'' \<in> {''paper'', ''notebook'', ''talk'', ''poster''}" by simp
  from style_default_succeeds [OF this, of ?w ?st True False True 1] obtain st' where
    run: "style ?w ?st (Some ''default'') ''notebook'' True False True 1 = Inr st'"
    by blast
  from style_omits_base_style [OF run] obtain rc clist where
    "rcParams st' = (rcParams ?st ++ rc)(''axes.prop_cycle'' \<mapsto> RCycler clist)"
    and same: "\<forall>k \<in> fst ` set base_style. rc k = None \<and> rcParams st' k = rcParams ?st k"
    by (elim exE conjE) (rule that)
  have mem: "''axes.axisbelow'' \<in> fst ` set base_style" "''font.family'' \<in> fst ` set base_style"
    by (simp_all add: base_style_def)
  have "rcParams st' ''axes.axisbelow'' = rcParams ?st ''axes.axisbelow''"
    "rcParams st' ''font.family'' = rcParams ?st ''font.family''"
    using bspec [OF same mem(1)] bspec [OF same mem(2)] by simp_all
  then have none: "rcParams st' ''axes.axisbelow'' = None" "rcParams st' ''font.family'' = None"
    by simp_all
  have tab: "map_of base_style ''axes.axisbelow'' = Some (RBool True)"
    "map_of base_style ''font.family'' = Some (RStr ''sans-serif'')"
    by (simp_all add: base_style_def)
  from run none have "\<exists>st'. style ?w ?st (Some ''default'') ''notebook'' True False True 1 = Inr st'
          \<and> rcParams st' ''axes.axisbelow'' = None
          \<and> rcParams st' ''font.family'' = None"
    by (intro exI [of _ st'] conjI)
  with tab show ?thesis by (intro conjI)
qed

section \<open>Properties of infer_theme\<close>

lemma file_lines_first:
  "text \<noteq> [] \<Longrightarrow> \<exists>ls. file_lines text = first_line text # ls"
proof (induction "text")
  case Nil
  then show ?case by simp
next
  case (Cons c cs)
  show ?case
  proof (cases "c = newline")
    case True
    then show ?thesis by (simp add: first_line_def)
  next
    case False
    show ?thesis
    proof (cases "cs = []")
      case True
      with False show ?thesis by (simp add: first_line_def)
    next
      case nonempty: False
      from Cons.IH [OF this] obtain ls where "file_lines cs = first_line cs # ls" by blast
      with False show ?thesis by (simp add: first_line_def)
    qed
  qed
qed

lemma translate_newlines_Nil: "translate_newlines t = [] \<longleftrightarrow> t = []"
  by (induction t rule: translate_newlines.induct) simp_all

lemma infer_theme_reads:
  assumes "files w (theme_name_file w) = Some (RegularFile bytes)"
      and "decode w bytes = Some body" and "body \<noteq> []"
  shows "infer_theme w = Inr (first_line (translate_newlines body))"
proof -
  from assms(3) have "translate_newlines body \<noteq> []"
    by (simp add: translate_newlines_Nil)
  from file_lines_first [OF this] obtain ls where
    "file_lines (translate_newlines body) = first_line (translate_newlines body) # ls"
    by blast
  with assms(1,2) show ?thesis
    by (simp add: infer_theme_def open_file_def read_text_def bind_err_def)
qed

text \<open>
  C6. When the marker file does not exist \<^verbatim>\<open>infer_theme\<close> returns \<open>default\<close>; when it exists
  and cannot be opened the I/O error propagates; when it exists, can be opened, decodes
  and is not empty, it returns the first line of the decoded text, with its line ending
  (a newline, a carriage return or both) read as one newline.
\<close>

theorem infer_theme_result:
  "(files w (theme_name_file w) = None \<longrightarrow> infer_theme w = Inr ''default'')
   \<and> (files w (theme_name_file w) = Some Unreadable \<longrightarrow> infer_theme w = Inl IOError)
   \<and> (files w (theme_name_file w) = Some (RegularFile bytes) \<and> decode w bytes = Some text
         \<and> text \<noteq> []
       \<longrightarrow> infer_theme w = Inr (first_line (translate_newlines text)))"
proof (intro conjI impI)
  assume "files w (theme_name_file w) = None"
  then show "infer_theme w = Inr ''default''" by (simp add: infer_theme_def)
next
  assume "files w (theme_name_file w) = Some Unreadable"
  then show "infer_theme w = Inl IOError"
    by (simp add: infer_theme_def open_file_def bind_err_def)
next
  assume "files w (theme_name_file w) = Some (RegularFile bytes) \<and> decode w bytes = Some text
            \<and> text \<noteq> []"
  then show "infer_theme w = Inr (first_line (translate_newlines text))"
    using infer_theme_reads by blast
qed

theorem infer_theme_result_witness:
  "infer_theme \<lparr>styles_dir = ''styles'', theme_name_file = ''current_theme.txt'',
          files = [''current_theme.txt'' \<mapsto>
                     RegularFile (''onedork'' @ [carriage_return, newline] @ ''x'')],
          set_order = remdups, parse_color = (\<lambda>s. (0, 0, 0)), decode = Some\<rparr>
     = Inr (''onedork'' @ [newline])
   \<and> infer_theme \<lparr>styles_dir = ''styles'', theme_name_file = ''current_theme.txt'',
          files = Map.empty,
          set_order = remdups, parse_color = (\<lambda>s. (0, 0, 0)), decode = Some\<rparr>
     = Inr ''default''
   \<and> infer_theme \<lparr>styles_dir = ''styles'', theme_name_file = ''current_theme.txt'',
          files = [''current_theme.txt'' \<mapsto> Unreadable],
          set_order = remdups, parse_color = (\<lambda>s. (0, 0, 0)), decode = Some\<rparr>
     = Inl IOError"
proof -
  let ?bytes = "''onedork'' @ [carriage_return, newline] @ ''x''"
  let ?w = "\<lparr>styles_dir = ''styles'', theme_name_file = ''current_theme.txt'',
          files = [''current_theme.txt'' \<mapsto> RegularFile ?bytes],
          set_order = remdups, parse_color = (\<lambda>s. (0, 0, 0)), decode = Some\<rparr>"
  let ?absent = "\<lparr>styles_dir = ''styles'', theme_name_file = ''current_theme.txt'',
          files = Map.empty,
          set_order = remdups, parse_color = (\<lambda>s. (0, 0, 0)), decode = Some\<rparr>"
  let ?locked = "\<lparr>styles_dir = ''styles'', theme_name_file = ''current_theme.txt'',
          files = [''current_theme.txt'' \<mapsto> Unreadable],
          set_order = remdups, parse_color = (\<lambda>s. (0, 0, 0)), decode = Some\<rparr>"
  have "files ?w (theme_name_file ?w) = Some (RegularFile ?bytes) \<and> decode ?w ?bytes = Some ?bytes
          \<and> ?bytes \<noteq> []"
    by simp
  with infer_theme_result [of ?w ?bytes ?bytes]
  have "infer_theme ?w = Inr (first_line (translate_newlines ?bytes))" by blast
  moreover have "first_line (translate_newlines ?bytes) = ''onedork'' @ [newline]"
    by (simp add: first_line_def newline_def carriage_return_def)
  moreover have "files ?absent (theme_name_file ?absent) = None" by simp
  with infer_theme_result [of ?absent] have "infer_theme ?absent = Inr ''default''" by blast
  moreover have "files ?locked (theme_name_file ?locked) = Some Unreadable" by simp
  with infer_theme_result [of ?locked] have "infer_theme ?locked = Inl IOError" by blast
  ultimately show ?thesis by simp
qed

text \<open>
  An existing marker file does cause a failure that is no I/O error: on an empty file the
  index \<open>[0]\<close> into the list of lines is out of range.
\<close>

theorem infer_theme_empty_file_counterexample:
  "files \<lparr>styles_dir = ''styles'', theme_name_file = ''current_theme.txt'',
          files = [''current_theme.txt'' \<mapsto> RegularFile []],
          set_order = remdups, parse_color = (\<lambda>s. (0, 0, 0)), decode = Some\<rparr>
      ''current_theme.txt'' \<noteq> None
   \<and> infer_theme \<lparr>styles_dir = ''styles'', theme_name_file = ''current_theme.txt'',
          files = [''current_theme.txt'' \<mapsto> RegularFile []],
          set_order = remdups, parse_color = (\<lambda>s. (0, 0, 0)), decode = Some\<rparr> = Inl IndexError
   \<and> IndexError \<noteq> IOError"
  by (simp add: infer_theme_def open_file_def read_text_def bind_err_def)

section \<open>The scan of a theme file\<close>

subsection \<open>Substrings and stripping\<close>

lemma rev_dropWhile_takeWhile:
  "rev (dropWhile P (rev xs)) @ rev (takeWhile P (rev xs)) = xs"
proof -
  have "rev (dropWhile P (rev xs)) @ rev (takeWhile P (rev xs))
          = rev (takeWhile P (rev xs) @ dropWhile P (rev xs))"
    by (simp only: rev_append)
  also have "\<dots> = xs"
    by (simp only: takeWhile_dropWhile_id rev_rev_ident)
  finally show ?thesis .
qed

lemma strip_sublist: "sublist (strip l) l"
proof -
  let ?d = "dropWhile isspace l"
  have "l = takeWhile isspace l @ ?d" by simp
  also have "?d = strip l @ rev (takeWhile isspace (rev ?d))"
    unfolding strip_def by (simp only: rev_dropWhile_takeWhile)
  finally show ?thesis unfolding sublist_def by blast
qed

lemma sublist_strip_imp: "sublist c (strip l) \<Longrightarrow> sublist c l"
  using strip_sublist sublist_order.order_trans by blast

lemma sublist_dropWhile:
  assumes "sublist c l" "c \<noteq> []" "\<not> P (hd c)"
  shows "sublist c (dropWhile P l)"
  using assms
proof (induction l)
  case Nil
  then show ?case by simp
next
  case (Cons x xs)
  show ?case
  proof (cases "P x")
    case True
    have "\<not> prefix c (x # xs)"
    proof
      assume "prefix c (x # xs)"
      with Cons.prems(2) have "hd c = x" by (cases c) auto
      with True Cons.prems(3) show False by simp
    qed
    with Cons.prems(1) have "sublist c xs" by (simp add: sublist_Cons_right)
    from Cons.IH [OF this Cons.prems(2,3)] True show ?thesis by simp
  next
    case False
    with Cons.prems(1) show ?thesis by simp
  qed
qed

lemma sublist_imp_strip:
  assumes "sublist c l" "c \<noteq> []" "\<not> isspace (hd c)" "\<not> isspace (last c)"
  shows "sublist c (strip l)"
proof -
  have 1: "sublist c (dropWhile isspace l)"
    using assms(1-3) by (rule sublist_dropWhile)
  then have "sublist (rev c) (rev (dropWhile isspace l))" by simp
  moreover have "rev c \<noteq> []" "\<not> isspace (hd (rev c))"
    using assms(2,4) by (simp_all add: hd_rev)
  ultimately have "sublist (rev c) (dropWhile isspace (rev (dropWhile isspace l)))"
    by (rule sublist_dropWhile)
  then have "sublist (rev (rev c)) (rev (dropWhile isspace (rev (dropWhile isspace l))))"
    by (subst sublist_rev)
  then show ?thesis by (simp add: strip_def)
qed

subsection \<open>The extraction of a colour code\<close>

lemma split_not_Nil: "split c s \<noteq> []"
  by (induction s) (auto split: list.splits)

lemma split_no_sep: "c \<notin> set r \<Longrightarrow> split c r = [r]"
  by (induction r) auto

lemma split_append: "split c (p @ c # r) = split c p @ split c r"
proof (induction p)
  case Nil
  then show ?case by simp
next
  case (Cons x p)
  obtain w ws where "split c p = w # ws"
    using split_not_Nil [of c p] by (cases "split c p") auto
  with Cons show ?case by simp
qed

lemma last_split_append: "last (split c (p @ c # r)) = last (split c r)"
  by (simp add: split_append split_not_Nil)

lemma hd_split: "c \<notin> set a \<Longrightarrow> hd (split c (a @ c # b)) = a"
  by (simp add: split_append split_no_sep)

text \<open>
  On a line of the shape \<open>\<dots>: #RRGGBB;\<dots>\<close> the extraction returns the seven characters
  before the first semicolon that follows the last colon.
\<close>

lemma get_hex_code_shape:
  assumes "CHR '':'' \<notin> set (sp @ h @ post)" "CHR '';'' \<notin> set (sp @ h)" "length h = 7"
  shows "get_hex_code (pre @ '':'' @ sp @ h @ '';'' @ post) = h"
proof -
  have "last (split CHR '':'' (pre @ '':'' @ sp @ h @ '';'' @ post))
          = last (split CHR '':'' (sp @ h @ '';'' @ post))"
    using last_split_append [of "CHR '':''" pre "sp @ h @ '';'' @ post"] by simp
  also have "\<dots> = sp @ h @ '';'' @ post"
    using assms(1) by (simp add: split_no_sep)
  finally have "hd (split CHR '';'' (last (split CHR '':'' (pre @ '':'' @ sp @ h @ '';'' @ post))))
          = hd (split CHR '';'' ((sp @ h) @ CHR '';'' # post))"
    by simp
  also have "\<dots> = sp @ h"
    using assms(2) by (rule hd_split)
  finally show ?thesis
    using assms(3) by (simp add: get_hex_code_def last7_def)
qed

subsection \<open>The loop over the syntax markers\<close>

declare scan_syntaxVars.simps [simp del]

lemma index_Some: "index xs c = Some j \<Longrightarrow> j < length xs \<and> xs ! j = c"
  by (induction xs arbitrary: j) (auto split: if_splits)

lemma index_found: "c \<in> set xs \<Longrightarrow> \<exists>j. index xs c = Some j"
  by (induction xs) auto

lemma index_distinct: "distinct xs \<Longrightarrow> i < length xs \<Longrightarrow> index xs (xs ! i) = Some i"
proof (induction xs arbitrary: i)
  case Nil
  then show ?case by simp
next
  case (Cons x xs)
  then show ?case by (cases i) auto
qed

lemma scan_done:
  "\<not> i < length vars \<Longrightarrow> scan_syntaxVars line vars i = Inr vars"
  by (subst scan_syntaxVars.simps) simp

lemma scan_skip:
  "i < length vars \<Longrightarrow> \<not> sublist (vars ! i) (strip line) \<Longrightarrow>
     scan_syntaxVars line vars i = scan_syntaxVars line vars (Suc i)"
  by (subst scan_syntaxVars.simps) simp

lemma scan_hit:
  "i < length vars \<Longrightarrow> sublist (vars ! i) (strip line) \<Longrightarrow> index vars (vars ! i) = Some j \<Longrightarrow>
     scan_syntaxVars line vars i = scan_syntaxVars line (vars[j := get_hex_code line]) (Suc i)"
  by (subst scan_syntaxVars.simps) (simp add: Let_def)

lemma scan_syntaxVars_keeps:
  assumes "\<not> sublist m line" "m \<in> set vars"
  shows "\<exists>vars'. scan_syntaxVars line vars i = Inr vars' \<and> m \<in> set vars'"
  using assms(2)
proof (induction "length vars - i" arbitrary: vars i)
  case 0
  then show ?case by (simp add: scan_done)
next
  case (Suc n)
  then have i: "i < length vars" by simp
  show ?case
  proof (cases "sublist (vars ! i) (strip line)")
    case False
    from Suc.hyps(1) [of vars "Suc i"] Suc.hyps(2) Suc.prems show ?thesis
      by (simp add: scan_skip [OF i False])
  next
    case True
    from index_found [of "vars ! i" vars] i obtain j where j: "index vars (vars ! i) = Some j"
      by auto
    from index_Some [OF j] have jlen: "j < length vars" and jval: "vars ! j = vars ! i"
      by simp_all
    from True assms(1) have "vars ! i \<noteq> m"
      using sublist_strip_imp by blast
    with jval have ne: "vars ! j \<noteq> m" by simp
    from Suc.prems obtain k where k: "k < length vars" "vars ! k = m"
      by (auto simp add: in_set_conv_nth)
    with ne have "k \<noteq> j" by auto
    with k jlen have "(vars[j := get_hex_code line]) ! k = m" by simp
    with k(1) have mem: "m \<in> set (vars[j := get_hex_code line])"
      by (metis length_list_update nth_mem)
    from Suc.hyps(1) [of "vars[j := get_hex_code line]" "Suc i"] Suc.hyps(2) mem
    show ?thesis
      by (simp add: scan_hit [OF i True j])
  qed
qed

lemma scan_lines_keeps:
  assumes "\<forall>l \<in> set lines. \<not> sublist m l" "m \<in> set vars"
  shows "\<exists>sm' vars'. scan_lines lines sm vars = Inr (sm', vars') \<and> m \<in> set vars'"
  using assms
proof (induction lines arbitrary: sm vars)
  case Nil
  then show ?case by simp
next
  case (Cons l lines)
  from Cons.prems have "\<not> sublist m l" by simp
  from scan_syntaxVars_keeps [OF this Cons.prems(2), of 0] obtain vars1 where
    1: "scan_syntaxVars l vars 0 = Inr vars1" "m \<in> set vars1" by blast
  from Cons.prems(1) have "\<forall>l \<in> set lines. \<not> sublist m l" by simp
  from Cons.IH [OF this 1(2), of "scan_styleMap l sm"] 1(1) show ?case
    by (simp add: bind_err_def)
qed


lemma get_theme_style_file:
  assumes "theme \<noteq> ''default''"
      and "files w (path_join (styles_dir w) (theme @ ''.less'')) = Some (RegularFile bytes)"
      and "read_text (decode w) bytes = Inr body"
      and "scan_lines (file_lines body) (fst get_default_jtstyle) syntaxVars0 = Inr (sm, vars)"
  shows "get_theme_style w theme = Inr (sm, get_color_list @ set_order w vars)"
  using assms
  by (simp add: get_theme_style_def get_default_jtstyle_def open_file_def bind_err_def Let_def)

lemma set_listing_remdups: "set_listing remdups"
  by (simp add: set_listing_def)

text \<open>
  C9. When a syntax marker occurs on no line of the theme file, the colour list that
  \<^verbatim>\<open>get_theme_style\<close> returns contains the marker string itself: the placeholder is never
  replaced and is appended to the accent colours.
\<close>

theorem unmatched_marker_stays:
  assumes "theme \<noteq> ''default''"
      and "files w (path_join (styles_dir w) (theme @ ''.less'')) = Some (RegularFile bytes)"
      and "read_text (decode w) bytes = Inr text"
      and "m \<in> set syntaxVars0"
      and "\<forall>l \<in> set (file_lines text). \<not> sublist m l"
      and "set_listing (set_order w)"
  shows "\<exists>styleMap clist. get_theme_style w theme = Inr (styleMap, clist) \<and> m \<in> set clist"
proof -
  from scan_lines_keeps [OF assms(5,4)] obtain sm vars where
    scan: "scan_lines (file_lines text) (fst get_default_jtstyle) syntaxVars0 = Inr (sm, vars)"
    and m: "m \<in> set vars"
    by blast
  from assms(6) have "set (set_order w vars) = set vars"
    by (simp add: set_listing_def)
  with m get_theme_style_file [OF assms(1,2,3) scan] show ?thesis by simp
qed

theorem unmatched_marker_stays_witness:
  "''mini'' \<noteq> ''default''
   \<and> ''@cm-atom'' \<in> set syntaxVars0
   \<and> list_all (\<lambda>l. \<not> sublist ''@cm-atom'' l)
        (file_lines (''@cm-number: #aaaaaa;'' @ [newline] @ ''axisFace: #111111;'' @ [newline]))
   \<and> (\<exists>styleMap clist.
        get_theme_style
          \<lparr>styles_dir = ''styles'', theme_name_file = ''current_theme.txt'',
            files = [''styles/mini.less'' \<mapsto>
               RegularFile (''@cm-number: #aaaaaa;'' @ [newline] @ ''axisFace: #111111;'' @ [newline])],
            set_order = remdups, parse_color = (\<lambda>s. (0, 0, 0)), decode = Some\<rparr> ''mini''
          = Inr (styleMap, clist)
        \<and> ''@cm-atom'' \<in> set clist)"
proof -
  let ?text = "''@cm-number: #aaaaaa;'' @ [newline] @ ''axisFace: #111111;'' @ [newline]"
  let ?w = "\<lparr>styles_dir = ''styles'', theme_name_file = ''current_theme.txt'',
            files = [''styles/mini.less'' \<mapsto> RegularFile ?text],
            set_order = remdups, parse_color = (\<lambda>s. (0, 0, 0)), decode = Some\<rparr>"
  have 1: "''mini'' \<noteq> ''default''" by simp
  have 2: "files ?w (path_join (styles_dir ?w) (''mini'' @ ''.less'')) = Some (RegularFile ?text)"
    by (simp add: path_join_def suffix_to_prefix)
  have r: "read_text (decode ?w) ?text = Inr ?text"
    by (simp add: read_text_def newline_def carriage_return_def)
  have 3: "''@cm-atom'' \<in> set syntaxVars0" by (simp add: syntaxVars0_def)
  have 4: "list_all (\<lambda>l. \<not> sublist ''@cm-atom'' l) (file_lines ?text)"
    by (simp add: newline_def sublist_Cons_right)
  then have all: "\<forall>l \<in> set (file_lines ?text). \<not> sublist ''@cm-atom'' l"
    by (simp only: list_all_iff)
  have 5: "set_listing (set_order ?w)" by (simp add: set_listing_remdups)
  from unmatched_marker_stays [OF 1 2 r 3 all 5] 1 3 4 show ?thesis by blast
qed

subsection \<open>The loop over the colour slots\<close>

lemma fold_scan_styleMap:
  "fold scan_styleMap lines sm =
     map (\<lambda>(k, v). (k, fold (\<lambda>l v. if sublist k (strip l) then get_hex_code l else v) lines v)) sm"
proof (induction lines arbitrary: sm)
  case Nil
  then show ?case by (simp add: case_prod_unfold)
next
  case (Cons l lines)
  then show ?case
    by (simp add: scan_styleMap_def case_prod_unfold if_distrib [of fst] if_distrib [of snd] cong: if_cong)
qed

lemma scan_lines_styleMap:
  "scan_lines lines sm vars = Inr (sm', vars') \<Longrightarrow> sm' = fold scan_styleMap lines sm"
proof (induction lines arbitrary: sm vars)
  case Nil
  then show ?case by simp
next
  case (Cons l lines)
  then show ?case
    by (auto simp add: bind_err_def split: sum.splits)
qed

lemma slot_value_final:
  assumes "\<forall>l \<in> set lines. sublist k l \<longrightarrow> get_hex_code l = h"
      and "k \<noteq> []" "\<not> isspace (hd k)" "\<not> isspace (last k)"
      and "v = h \<or> (\<exists>l \<in> set lines. sublist k l)"
  shows "fold (\<lambda>l v. if sublist k (strip l) then get_hex_code l else v) lines v = h"
  using assms(1,5)
proof (induction lines arbitrary: v)
  case Nil
  then show ?case by simp
next
  case (Cons l lines)
  let ?v = "if sublist k (strip l) then get_hex_code l else v"
  have rest: "\<forall>l \<in> set lines. sublist k l \<longrightarrow> get_hex_code l = h"
    using Cons.prems(1) by simp
  have "?v = h \<or> (\<exists>l \<in> set lines. sublist k l)"
  proof (cases "sublist k l")
    case True
    then have "sublist k (strip l)"
      using assms(2-4) by (rule sublist_imp_strip)
    moreover from True Cons.prems(1) have "get_hex_code l = h" by simp
    ultimately show ?thesis by simp
  next
    case False
    then have "\<not> sublist k (strip l)"
      using sublist_strip_imp by blast
    with False Cons.prems(2) show ?thesis by auto
  qed
  from Cons.IH [OF rest this] show ?case by simp
qed


lemma map_slots:
  assumes "list_all2 (\<lambda>kv h. F (fst kv) (snd kv) = h) D hs"
  shows "map (\<lambda>(k, v). (k, F k v)) D = zip (map fst D) hs"
  using assms by (induction rule: list_all2_induct) (auto simp add: case_prod_unfold)


subsection \<open>The marker list when every marker is found\<close>

lemma replaced_or_marker_distinct:
  assumes inv: "replaced_or_marker ms hs vars"
      and d: "distinct (ms @ hs)" and len: "length hs = length ms"
  shows "distinct vars"
proof -
  have "vars ! i \<noteq> vars ! j" if "i < length vars" "j < length vars" "i \<noteq> j" for i j
  proof -
    from inv that have i: "i < length ms" and j: "j < length ms"
      by (simp_all add: replaced_or_marker_def)
    from d i j that(3) have 1: "ms ! i \<noteq> ms ! j"
      by (simp add: nth_eq_iff_index_eq)
    from d i j len that(3) have 2: "hs ! i \<noteq> hs ! j"
      by (simp add: nth_eq_iff_index_eq)
    from d have disj: "set ms \<inter> set hs = {}" by simp
    from i j len have "ms ! i \<in> set ms" "hs ! j \<in> set hs" "ms ! j \<in> set ms" "hs ! i \<in> set hs"
      by simp_all
    with disj have 3: "ms ! i \<noteq> hs ! j" "hs ! i \<noteq> ms ! j" by auto
    from inv i j have "vars ! i = ms ! i \<or> vars ! i = hs ! i" "vars ! j = ms ! j \<or> vars ! j = hs ! j"
      by (simp_all add: replaced_or_marker_def)
    with 1 2 3 show ?thesis by auto
  qed
  then show ?thesis by (simp add: distinct_conv_nth)
qed

lemma scan_syntaxVars_inv:
  assumes d: "distinct (ms @ hs)" and len: "length hs = length ms"
      and ok: "line_carries ms hs l"
      and inv: "replaced_or_marker ms hs vars"
  shows "\<exists>vars'. scan_syntaxVars l vars i = Inr vars' \<and> replaced_or_marker ms hs vars'
           \<and> (\<forall>k<length ms. vars ! k = hs ! k \<or> (i \<le> k \<and> sublist (ms ! k) (strip l))
                \<longrightarrow> vars' ! k = hs ! k)"
  using inv
proof (induction "length vars - i" arbitrary: vars i)
  case 0
  then have "\<not> i < length vars" by simp
  moreover from 0 have "length vars = length ms" by (simp add: replaced_or_marker_def)
  ultimately show ?case using 0 by (auto simp add: scan_done)
next
  case (Suc n)
  then have i: "i < length vars" by simp
  from Suc.prems have lv: "length vars = length ms" by (simp add: replaced_or_marker_def)
  from Suc.prems i lv have at_i: "vars ! i = ms ! i \<or> vars ! i = hs ! i"
    by (simp add: replaced_or_marker_def)
  show ?case
  proof (cases "sublist (vars ! i) (strip l)")
    case False
    have m: "n = length vars - Suc i" using Suc.hyps(2) by simp
    from Suc.hyps(1) [OF m Suc.prems] obtain vars' where
      run: "scan_syntaxVars l vars (Suc i) = Inr vars'"
      and inv': "replaced_or_marker ms hs vars'"
      and fin: "\<forall>k<length ms. vars ! k = hs ! k \<or> (Suc i \<le> k \<and> sublist (ms ! k) (strip l))
                  \<longrightarrow> vars' ! k = hs ! k"
      by blast
    have "vars' ! k = hs ! k"
      if k: "k < length ms" and c: "vars ! k = hs ! k \<or> (i \<le> k \<and> sublist (ms ! k) (strip l))" for k
    proof (cases "k = i")
      case True
      with c at_i False have "vars ! k = hs ! k" by auto
      with fin k show ?thesis by blast
    next
      case ne: False
      with c have "vars ! k = hs ! k \<or> (Suc i \<le> k \<and> sublist (ms ! k) (strip l))" by auto
      with fin k show ?thesis by blast
    qed
    with run inv' show ?thesis
      by (simp add: scan_skip [OF i False])
  next
    case True
    have j: "index vars (vars ! i) = Some i"
      using replaced_or_marker_distinct [OF Suc.prems d len] i by (rule index_distinct)
    from ok i lv at_i True have hex: "get_hex_code l = hs ! i"
      by (auto simp add: line_carries_def)
    let ?vars = "vars[i := get_hex_code l]"
    have "?vars ! k = ms ! k \<or> ?vars ! k = hs ! k" if k: "k < length ms" for k
    proof (cases "k = i")
      case True
      with i hex show ?thesis by simp
    next
      case False
      with Suc.prems k show ?thesis by (simp add: replaced_or_marker_def)
    qed
    with lv have inv2: "replaced_or_marker ms hs ?vars"
      by (simp add: replaced_or_marker_def)
    have m: "n = length ?vars - Suc i" using Suc.hyps(2) by simp
    from Suc.hyps(1) [OF m inv2] obtain vars' where
      run: "scan_syntaxVars l ?vars (Suc i) = Inr vars'"
      and inv': "replaced_or_marker ms hs vars'"
      and fin: "\<forall>k<length ms. ?vars ! k = hs ! k \<or> (Suc i \<le> k \<and> sublist (ms ! k) (strip l))
                  \<longrightarrow> vars' ! k = hs ! k"
      by blast
    have "vars' ! k = hs ! k"
      if k: "k < length ms" and c: "vars ! k = hs ! k \<or> (i \<le> k \<and> sublist (ms ! k) (strip l))" for k
    proof (cases "k = i")
      case True
      with i hex have "?vars ! k = hs ! k" by simp
      with fin k show ?thesis by blast
    next
      case ne: False
      then have "?vars ! k = vars ! k" by simp
      with c ne have "?vars ! k = hs ! k \<or> (Suc i \<le> k \<and> sublist (ms ! k) (strip l))" by auto
      with fin k show ?thesis by blast
    qed
    with run inv' show ?thesis
      by (simp add: scan_hit [OF i True j])
  qed
qed

lemma scan_lines_inv:
  assumes d: "distinct (ms @ hs)" and len: "length hs = length ms"
      and ok: "\<forall>l \<in> set lines. line_carries ms hs l"
      and inv: "replaced_or_marker ms hs vars"
  shows "\<exists>sm' vars'. scan_lines lines sm vars = Inr (sm', vars') \<and> replaced_or_marker ms hs vars'
           \<and> (\<forall>k<length ms. vars ! k = hs ! k \<or> (\<exists>l \<in> set lines. sublist (ms ! k) (strip l))
                \<longrightarrow> vars' ! k = hs ! k)"
  using ok inv
proof (induction lines arbitrary: sm vars)
  case Nil
  then show ?case by simp
next
  case (Cons l lines)
  from Cons.prems(1) have okl: "line_carries ms hs l" by simp
  from scan_syntaxVars_inv [OF d len okl Cons.prems(2), of 0] obtain vars1 where
    run1: "scan_syntaxVars l vars 0 = Inr vars1"
    and inv1: "replaced_or_marker ms hs vars1"
    and fin1: "\<forall>k<length ms. vars ! k = hs ! k \<or> (0 \<le> k \<and> sublist (ms ! k) (strip l))
                 \<longrightarrow> vars1 ! k = hs ! k"
    by blast
  from Cons.prems(1) have rest: "\<forall>l \<in> set lines. line_carries ms hs l" by simp
  from Cons.IH [OF rest inv1, of "scan_styleMap l sm"] obtain sm' vars' where
    run: "scan_lines lines (scan_styleMap l sm) vars1 = Inr (sm', vars')"
    and inv': "replaced_or_marker ms hs vars'"
    and fin: "\<forall>k<length ms. vars1 ! k = hs ! k \<or> (\<exists>l \<in> set lines. sublist (ms ! k) (strip l))
                \<longrightarrow> vars' ! k = hs ! k"
    by blast
  have "vars' ! k = hs ! k"
    if k: "k < length ms"
    and c: "vars ! k = hs ! k \<or> (\<exists>x \<in> set (l # lines). sublist (ms ! k) (strip x))" for k
  proof -
    from c consider "vars ! k = hs ! k" | "sublist (ms ! k) (strip l)"
      | "\<exists>l \<in> set lines. sublist (ms ! k) (strip l)"
      by auto
    then have "vars1 ! k = hs ! k \<or> (\<exists>l \<in> set lines. sublist (ms ! k) (strip l))"
    proof cases
      case 1
      with fin1 k show ?thesis by blast
    next
      case 2
      then have "0 \<le> k \<and> sublist (ms ! k) (strip l)" by simp
      with fin1 k show ?thesis by blast
    next
      case 3
      then show ?thesis by blast
    qed
    with fin k show ?thesis by blast
  qed
  with run1 run inv' show ?case
    by (simp add: bind_err_def)
qed


lemma markers_clean:
  "list_all (\<lambda>m. m \<noteq> [] \<and> \<not> isspace (hd m) \<and> \<not> isspace (last m)) (slot_keys @ syntaxVars0)"
  by (simp add: slot_keys_def syntaxVars0_def isspace_def)

lemma markers_at: "list_all (\<lambda>m. hd m = CHR ''@'') syntaxVars0"
  by (simp add: syntaxVars0_def)

lemma distinct_syntaxVars0: "distinct syntaxVars0"
  by (simp add: syntaxVars0_def)

lemma hex_digit_not_space: "c \<in> set ''0123456789abcdefABCDEF'' \<Longrightarrow> \<not> isspace c"
  by (auto simp add: isspace_def)

lemma valid_hex_clean:
  assumes "valid_hex h"
  shows "h \<noteq> [] \<and> hd h = CHR ''#'' \<and> \<not> isspace (hd h) \<and> \<not> isspace (last h)"
proof -
  from assms obtain c t where h: "h = c # t" and t: "length t = 6"
    by (cases h) (auto simp add: valid_hex_def)
  from t have "t \<noteq> []" by auto
  then have "last h \<in> set t" using h by simp
  moreover from assms h have "\<forall>x \<in> set t. x \<in> set ''0123456789abcdefABCDEF''"
    by (simp add: valid_hex_def list_all_iff)
  ultimately have 1: "\<not> isspace (last h)"
    using hex_digit_not_space by blast
  from assms have 2: "hd h = CHR ''#''" by (simp add: valid_hex_def)
  have "\<not> isspace CHR ''#''" by (simp add: isspace_def)
  with 2 have 3: "\<not> isspace (hd h)" by simp
  from h have 4: "h \<noteq> []" by simp
  from 4 2 3 1 show ?thesis by (intro conjI)
qed

lemma file_lines_synthetic_theme:
  "file_lines synthetic_theme =
     map (\<lambda>l. l @ [newline])
      [''axisFace: #101010;'',
       ''figureFace: #202020;'',
       ''textColor: #303030;'',
       ''edgeColor: #404040;'',
       ''gridColor: #505050;'',
       ''@cm-atom: #a0a0a0;'',
       ''@cm-number: #b0b0b0;'',
       ''@cm-property: #c0c0c0;'',
       ''@cm-attribute: #d0d0d0;'',
       ''@cm-keyword: #e0e0e0;'',
       ''@cm-string: #f0f0f0;'',
       ''@cm-meta: #0f0f0f;'']"
  by (simp add: synthetic_theme_def newline_def)

text \<open>
  C2. Take a theme file that has the twelve markers, each with its own valid \<open>#RRGGBB\<close>
  value, all values different: every line that mentions a marker yields the value of that
  marker, and a line on which a syntax colour is written yields that colour. Then
  \<^verbatim>\<open>get_theme_style\<close> returns the colour map with the five slots bound to the file's values,
  and a colour list of at most 21 entries: the 14 base colours, followed by the seven
  syntax colours, each once, in the order the set gives them.
\<close>

theorem get_theme_style_roundtrip:
  assumes order: "set_listing (set_order w)"
      and theme: "theme \<noteq> ''default''"
      and readable: "files w (path_join (styles_dir w) (theme @ ''.less'')) = Some (RegularFile bytes)"
      and decoded: "read_text (decode w) bytes = Inr text"
      and valid: "list_all valid_hex (slots @ syn)"
      and dist: "distinct (slots @ syn)"
      and slot_lines: "list_all2 (marker_has (file_lines text)) slot_keys slots"
      and syn_lines: "list_all2 (marker_has (file_lines text)) syntaxVars0 syn"
      and stable: "list_all (value_stable (file_lines text)) syn"
  shows "\<exists>styleMap clist. get_theme_style w theme = Inr (styleMap, clist)
           \<and> styleMap = zip slot_keys slots
           \<and> length clist \<le> 21
           \<and> take 14 clist = get_color_list
           \<and> distinct (drop 14 clist) \<and> set (drop 14 clist) = set syn"
proof -
  let ?lines = "file_lines text"
  let ?ms = "syntaxVars0"
  let ?F = "\<lambda>k v. fold (\<lambda>l v. if sublist k (strip l) then get_hex_code l else v) ?lines v"
  let ?D = "fst get_default_jtstyle"
  from syn_lines have len: "length syn = length ?ms"
    by (simp add: list_all2_lengthD)
  have clean: "m \<noteq> [] \<and> \<not> isspace (hd m) \<and> \<not> isspace (last m)"
    if "m \<in> set (slot_keys @ syntaxVars0)" for m
    using markers_clean that unfolding list_all_iff by blast
  have has: "marker_has ?lines (?ms ! i) (syn ! i)" if "i < length ?ms" for i
    using syn_lines that by (simp add: list_all2_conv_all_nth)
  \<comment> \<open>markers and values are pairwise different\<close>
  have "set ?ms \<inter> set syn = {}"
  proof -
    have "m \<noteq> h" if m: "m \<in> set ?ms" and h: "h \<in> set syn" for m h
    proof -
      from m markers_at have "hd m = CHR ''@''" by (simp add: list_all_iff)
      moreover from h valid have "valid_hex h" by (simp add: list_all_iff)
      then have "hd h = CHR ''#''" using valid_hex_clean by blast
      ultimately show ?thesis by auto
    qed
    then show ?thesis by blast
  qed
  with dist distinct_syntaxVars0 have d: "distinct (?ms @ syn)" by simp
  \<comment> \<open>every line yields the value of what it shows\<close>
  have ok: "\<forall>l \<in> set ?lines. line_carries ?ms syn l"
  proof
    fix l assume l: "l \<in> set ?lines"
    have "get_hex_code l = syn ! i"
      if i: "i < length ?ms" and c: "sublist (?ms ! i) (strip l) \<or> sublist (syn ! i) (strip l)" for i
      using c
    proof
      assume "sublist (?ms ! i) (strip l)"
      then have "sublist (?ms ! i) l" by (rule sublist_strip_imp)
      with has [OF i] l show ?thesis by (simp add: marker_has_def list_all_iff)
    next
      assume "sublist (syn ! i) (strip l)"
      then have "sublist (syn ! i) l" by (rule sublist_strip_imp)
      moreover from i len have "syn ! i \<in> set syn" by simp
      with stable have "value_stable ?lines (syn ! i)" by (simp add: list_all_iff)
      ultimately show ?thesis using l by (simp add: value_stable_def list_all_iff)
    qed
    then show "line_carries ?ms syn l" by (simp add: line_carries_def)
  qed
  have inv0: "replaced_or_marker ?ms syn ?ms" by (simp add: replaced_or_marker_def)
  from scan_lines_inv [OF d len ok inv0, of ?D] obtain sm vars where
    scan: "scan_lines ?lines ?D ?ms = Inr (sm, vars)"
    and inv: "replaced_or_marker ?ms syn vars"
    and fin: "\<forall>k<length ?ms. ?ms ! k = syn ! k \<or> (\<exists>l \<in> set ?lines. sublist (?ms ! k) (strip l))
                \<longrightarrow> vars ! k = syn ! k"
    by blast
  \<comment> \<open>the marker list ends as the list of values\<close>
  have "vars ! k = syn ! k" if k: "k < length ?ms" for k
  proof -
    from has [OF k] obtain l where l: "l \<in> set ?lines" "sublist (?ms ! k) l"
      by (auto simp add: marker_has_def list_ex_iff)
    from k have "?ms ! k \<in> set (slot_keys @ syntaxVars0)" by simp
    from clean [OF this] l(2) have "sublist (?ms ! k) (strip l)"
      by (simp add: sublist_imp_strip)
    with l(1) fin k show ?thesis by blast
  qed
  moreover from inv have "length vars = length ?ms" by (simp add: replaced_or_marker_def)
  ultimately have vars: "vars = syn"
    using len by (simp add: nth_equalityI)
  \<comment> \<open>the colour map ends with the values of the slots\<close>
  have keys: "map fst ?D = slot_keys"
    by (simp add: get_default_jtstyle_def slot_keys_def)
  from slot_lines have slots_D: "list_all2 (\<lambda>kv h. marker_has ?lines (fst kv) h) ?D slots"
    by (simp add: keys [symmetric] list_all2_map1)
  have slot_final: "?F (fst kv) (snd kv) = h"
    if kv: "kv \<in> set ?D" and mh: "marker_has ?lines (fst kv) h" for kv h
  proof -
    from kv have "fst kv \<in> set (map fst ?D)" by simp
    then have "fst kv \<in> set (slot_keys @ syntaxVars0)" by (simp add: keys)
    from clean [OF this] mh show ?thesis
      by (intro slot_value_final) (simp_all add: marker_has_def list_all_iff list_ex_iff)
  qed
  have "list_all2 (\<lambda>kv h. ?F (fst kv) (snd kv) = h) ?D slots"
  proof (rule list.rel_mono_strong [OF slots_D])
    fix kv h
    assume "kv \<in> set ?D" "marker_has ?lines (fst kv) h"
    then show "?F (fst kv) (snd kv) = h" by (rule slot_final)
  qed
  from map_slots [of ?F, OF this] have "fold scan_styleMap ?lines ?D = zip slot_keys slots"
    by (simp add: fold_scan_styleMap keys)
  with scan_lines_styleMap [OF scan] have sm: "sm = zip slot_keys slots" by simp
  \<comment> \<open>the result\<close>
  from order have listing: "distinct (set_order w syn)" "set (set_order w syn) = set syn"
    by (simp_all add: set_listing_def)
  from dist have "distinct syn" by simp
  with listing have "length (set_order w syn) = length syn"
    by (metis distinct_card)
  with len have n: "length (set_order w syn) = 7" by (simp add: syntaxVars0_def)
  have c: "length get_color_list = 14" by (simp add: get_color_list_def)
  from get_theme_style_file [OF theme readable decoded scan]
  have "get_theme_style w theme = Inr (zip slot_keys slots, get_color_list @ set_order w syn)"
    by (simp add: sm vars)
  with listing n c show ?thesis by simp
qed


theorem get_theme_style_roundtrip_witness:
  "list_all valid_hex
     ([''#101010'', ''#202020'', ''#303030'', ''#404040'', ''#505050'']
      @ [''#a0a0a0'', ''#b0b0b0'', ''#c0c0c0'', ''#d0d0d0'', ''#e0e0e0'', ''#f0f0f0'', ''#0f0f0f''])
   \<and> distinct
     ([''#101010'', ''#202020'', ''#303030'', ''#404040'', ''#505050'']
      @ [''#a0a0a0'', ''#b0b0b0'', ''#c0c0c0'', ''#d0d0d0'', ''#e0e0e0'', ''#f0f0f0'', ''#0f0f0f''])
   \<and> list_all2 (marker_has (file_lines synthetic_theme)) slot_keys
         [''#101010'', ''#202020'', ''#303030'', ''#404040'', ''#505050'']
   \<and> list_all2 (marker_has (file_lines synthetic_theme)) syntaxVars0
         [''#a0a0a0'', ''#b0b0b0'', ''#c0c0c0'', ''#d0d0d0'', ''#e0e0e0'', ''#f0f0f0'', ''#0f0f0f'']
   \<and> list_all (value_stable (file_lines synthetic_theme))
         [''#a0a0a0'', ''#b0b0b0'', ''#c0c0c0'', ''#d0d0d0'', ''#e0e0e0'', ''#f0f0f0'', ''#0f0f0f'']
   \<and> (\<exists>styleMap clist.
         get_theme_style
           \<lparr>styles_dir = ''styles'', theme_name_file = ''current_theme.txt'',
             files = [''styles/synthetic.less'' \<mapsto> RegularFile synthetic_theme],
             set_order = remdups, parse_color = (\<lambda>s. (0, 0, 0)), decode = Some\<rparr> ''synthetic''
           = Inr (styleMap, clist)
         \<and> styleMap = [(''axisFace'', ''#101010''), (''figureFace'', ''#202020''),
                        (''textColor'', ''#303030''), (''edgeColor'', ''#404040''),
                        (''gridColor'', ''#505050'')]
         \<and> length clist \<le> 21
         \<and> take 14 clist = get_color_list
         \<and> set (drop 14 clist)
             = {''#a0a0a0'', ''#b0b0b0'', ''#c0c0c0'', ''#d0d0d0'', ''#e0e0e0'', ''#f0f0f0'', ''#0f0f0f''})"
proof -
  let ?S = "[''#101010'', ''#202020'', ''#303030'', ''#404040'', ''#505050'']"
  let ?Y = "[''#a0a0a0'', ''#b0b0b0'', ''#c0c0c0'', ''#d0d0d0'', ''#e0e0e0'', ''#f0f0f0'', ''#0f0f0f'']"
  let ?w = "\<lparr>styles_dir = ''styles'', theme_name_file = ''current_theme.txt'',
             files = [''styles/synthetic.less'' \<mapsto> RegularFile synthetic_theme],
             set_order = remdups, parse_color = (\<lambda>s. (0, 0, 0)), decode = Some\<rparr>"
  have 1: "set_listing (set_order ?w)" by (simp add: set_listing_remdups)
  have 2: "''synthetic'' \<noteq> ''default''" by simp
  have 3: "files ?w (path_join (styles_dir ?w) (''synthetic'' @ ''.less''))
             = Some (RegularFile synthetic_theme)"
    by (simp add: path_join_def suffix_to_prefix)
  have r: "read_text (decode ?w) synthetic_theme = Inr synthetic_theme"
    by (simp add: read_text_def synthetic_theme_def newline_def carriage_return_def)
  have 4: "list_all valid_hex (?S @ ?Y)" by (simp add: valid_hex_def)
  have 5: "distinct (?S @ ?Y)" by simp
  have 6: "list_all2 (marker_has (file_lines synthetic_theme)) slot_keys ?S"
    by (simp add: file_lines_synthetic_theme marker_has_def slot_keys_def newline_def
          sublist_Cons_right get_hex_code_def last7_def)
  have 7: "list_all2 (marker_has (file_lines synthetic_theme)) syntaxVars0 ?Y"
    by (simp add: file_lines_synthetic_theme marker_has_def syntaxVars0_def newline_def
          sublist_Cons_right get_hex_code_def last7_def)
  have 8: "list_all (value_stable (file_lines synthetic_theme)) ?Y"
    by (simp add: file_lines_synthetic_theme value_stable_def newline_def
          sublist_Cons_right get_hex_code_def last7_def)
  from get_theme_style_roundtrip [OF 1 2 3 r 4 5 6 7 8] obtain styleMap clist where
    r: "get_theme_style ?w ''synthetic'' = Inr (styleMap, clist)"
       "styleMap = zip slot_keys ?S" "length clist \<le> 21" "take 14 clist = get_color_list"
       "set (drop 14 clist) = set ?Y"
    by blast
  from r(2) have "styleMap = [(''axisFace'', ''#101010''), (''figureFace'', ''#202020''),
                        (''textColor'', ''#303030''), (''edgeColor'', ''#404040''),
                        (''gridColor'', ''#505050'')]"
    by (simp add: slot_keys_def)
  moreover from r(5) have "set (drop 14 clist)
      = {''#a0a0a0'', ''#b0b0b0'', ''#c0c0c0'', ''#d0d0d0'', ''#e0e0e0'', ''#f0f0f0'', ''#0f0f0f''}"
    by simp
  ultimately have "\<exists>styleMap clist.
         get_theme_style ?w ''synthetic'' = Inr (styleMap, clist)
         \<and> styleMap = [(''axisFace'', ''#101010''), (''figureFace'', ''#202020''),
                        (''textColor'', ''#303030''), (''edgeColor'', ''#404040''),
                        (''gridColor'', ''#505050'')]
         \<and> length clist \<le> 21
         \<and> take 14 clist = get_color_list
         \<and> set (drop 14 clist)
             = {''#a0a0a0'', ''#b0b0b0'', ''#c0c0c0'', ''#d0d0d0'', ''#e0e0e0'', ''#f0f0f0'', ''#0f0f0f''}"
    using r(1,3,4) by (intro exI [of _ styleMap] exI [of _ clist] conjI)
  with 4 5 6 7 8 show ?thesis by (intro conjI)
qed

subsection \<open>A line that only mentions a colour\<close>

lemma file_lines_commented_theme:
  "file_lines commented_theme =
     map (\<lambda>l. l @ [newline])
      [''axisFace: #101010;'',
       ''figureFace: #202020;'',
       ''textColor: #303030;'',
       ''edgeColor: #404040;'',
       ''gridColor: #505050;'',
       ''@cm-atom: #a0a0a0;'',
       ''@cm-number: #b0b0b0;'',
       ''@cm-property: #c0c0c0;'',
       ''@cm-attribute: #d0d0d0;'',
       ''@cm-keyword: #e0e0e0;'',
       ''@cm-string: #f0f0f0;'',
       ''@cm-meta: #0f0f0f;'',
       ''// atom colour #a0a0a0'']"
  by (simp add: commented_theme_def synthetic_theme_def newline_def)

lemma scan_commented_theme:
  "scan_lines (file_lines commented_theme) (fst get_default_jtstyle) syntaxVars0 =
     Inr ([(''axisFace'', ''#101010''), (''figureFace'', ''#202020''),
           (''textColor'', ''#303030''), (''edgeColor'', ''#404040''),
           (''gridColor'', ''#505050'')],
          [''a0a0a0'' @ [newline], ''#b0b0b0'', ''#c0c0c0'', ''#d0d0d0'', ''#e0e0e0'',
           ''#f0f0f0'', ''#0f0f0f''])"
  by (simp add: file_lines_commented_theme get_default_jtstyle_def syntaxVars0_def newline_def
        scan_syntaxVars.simps scan_styleMap_def bind_err_def strip_def isspace_def
        sublist_Cons_right get_hex_code_def last7_def Let_def)

text \<open>
  The twelve markers, each on its line with its own valid value, do not suffice. With one
  more line, a comment that mentions the colour of \<open>@cm-atom\<close>, every marker still stands in
  the file with its value, yet the entry that held \<open>#a0a0a0\<close> is tested against the comment,
  found there, and replaced by the last seven characters of that line: the colour list ends
  with \<open>a0a0a0\<close> and a newline in place of the atom colour.
\<close>

theorem get_theme_style_comment_counterexample:
  "list_all valid_hex
     ([''#101010'', ''#202020'', ''#303030'', ''#404040'', ''#505050'']
      @ [''#a0a0a0'', ''#b0b0b0'', ''#c0c0c0'', ''#d0d0d0'', ''#e0e0e0'', ''#f0f0f0'', ''#0f0f0f''])
   \<and> distinct
     ([''#101010'', ''#202020'', ''#303030'', ''#404040'', ''#505050'']
      @ [''#a0a0a0'', ''#b0b0b0'', ''#c0c0c0'', ''#d0d0d0'', ''#e0e0e0'', ''#f0f0f0'', ''#0f0f0f''])
   \<and> list_all2 (marker_has (file_lines commented_theme)) slot_keys
         [''#101010'', ''#202020'', ''#303030'', ''#404040'', ''#505050'']
   \<and> list_all2 (marker_has (file_lines commented_theme)) syntaxVars0
         [''#a0a0a0'', ''#b0b0b0'', ''#c0c0c0'', ''#d0d0d0'', ''#e0e0e0'', ''#f0f0f0'', ''#0f0f0f'']
   \<and> get_theme_style
         \<lparr>styles_dir = ''styles'', theme_name_file = ''current_theme.txt'',
           files = [''styles/synthetic.less'' \<mapsto> RegularFile commented_theme],
           set_order = remdups, parse_color = (\<lambda>s. (0, 0, 0)), decode = Some\<rparr> ''synthetic''
       = Inr ([(''axisFace'', ''#101010''), (''figureFace'', ''#202020''),
               (''textColor'', ''#303030''), (''edgeColor'', ''#404040''),
               (''gridColor'', ''#505050'')],
              get_color_list
              @ [''a0a0a0'' @ [newline], ''#b0b0b0'', ''#c0c0c0'', ''#d0d0d0'', ''#e0e0e0'',
                 ''#f0f0f0'', ''#0f0f0f''])
   \<and> ''#a0a0a0'' \<notin> set (get_color_list
              @ [''a0a0a0'' @ [newline], ''#b0b0b0'', ''#c0c0c0'', ''#d0d0d0'', ''#e0e0e0'',
                 ''#f0f0f0'', ''#0f0f0f''])
   \<and> \<not> valid_hex (''a0a0a0'' @ [newline])"
proof -
  let ?S = "[''#101010'', ''#202020'', ''#303030'', ''#404040'', ''#505050'']"
  let ?Y = "[''#a0a0a0'', ''#b0b0b0'', ''#c0c0c0'', ''#d0d0d0'', ''#e0e0e0'', ''#f0f0f0'', ''#0f0f0f'']"
  let ?Z = "[''a0a0a0'' @ [newline], ''#b0b0b0'', ''#c0c0c0'', ''#d0d0d0'', ''#e0e0e0'',
             ''#f0f0f0'', ''#0f0f0f'']"
  let ?w = "\<lparr>styles_dir = ''styles'', theme_name_file = ''current_theme.txt'',
             files = [''styles/synthetic.less'' \<mapsto> RegularFile commented_theme],
             set_order = remdups, parse_color = (\<lambda>s. (0, 0, 0)), decode = Some\<rparr>"
  have 1: "list_all valid_hex (?S @ ?Y)" by (simp add: valid_hex_def)
  have 2: "distinct (?S @ ?Y)" by simp
  have 3: "list_all2 (marker_has (file_lines commented_theme)) slot_keys ?S"
    by (simp add: file_lines_commented_theme marker_has_def slot_keys_def newline_def
          sublist_Cons_right get_hex_code_def last7_def)
  have 4: "list_all2 (marker_has (file_lines commented_theme)) syntaxVars0 ?Y"
    by (simp add: file_lines_commented_theme marker_has_def syntaxVars0_def newline_def
          sublist_Cons_right get_hex_code_def last7_def)
  have t: "''synthetic'' \<noteq> ''default''" by simp
  have f: "files ?w (path_join (styles_dir ?w) (''synthetic'' @ ''.less''))
             = Some (RegularFile commented_theme)"
    by (simp add: path_join_def suffix_to_prefix)
  have r: "read_text (decode ?w) commented_theme = Inr commented_theme"
    by (simp add: read_text_def commented_theme_def synthetic_theme_def newline_def
          carriage_return_def)
  have "remdups ?Z = ?Z" by (simp add: newline_def)
  with get_theme_style_file [OF t f r scan_commented_theme]
  have 5: "get_theme_style ?w ''synthetic''
       = Inr ([(''axisFace'', ''#101010''), (''figureFace'', ''#202020''),
               (''textColor'', ''#303030''), (''edgeColor'', ''#404040''),
               (''gridColor'', ''#505050'')],
              get_color_list @ ?Z)"
    by simp
  have 6: "''#a0a0a0'' \<notin> set (get_color_list @ ?Z)"
    by (simp add: get_color_list_def newline_def)
  have 7: "\<not> valid_hex (''a0a0a0'' @ [newline])"
    by (simp add: valid_hex_def)
  from 1 2 3 4 5 6 7 show ?thesis by (intro conjI)
qed

end
